theory Spec2Isabelle
  imports Complex_Main "HOL-Library.Log_Nat"
begin

section \<open>The coffee-shop page script: values, errors, outcomes\<close>

text \<open>
  The repository holds two revisions of \<^verbatim>\<open>coffee.js\<close>. They share the testimonial carousel
  and differ in the responsive gap of \<^verbatim>\<open>getSlideWidth\<close>, in the shape of \<^verbatim>\<open>CONFIG\<close>, in the
  console messages and in the list of initializers. Every function below that differs takes
  the revision as its first argument. The utilities that nothing calls
  (\<^verbatim>\<open>addEventListenerSafe\<close>, \<^verbatim>\<open>isElementInViewport\<close>, \<^verbatim>\<open>formatTime\<close>) are left out.
\<close>

datatype revision = First | Second

text \<open>
  A JavaScript exception is a value. A statement that throws leaves behind whatever it had
  already written, so an outcome carries the state in both cases.
\<close>

datatype error = TypeError string | ReferenceError string | SyntaxError string

datatype 's outcome = Returned 's | Threw error 's

fun final :: "'s outcome \<Rightarrow> 's" where
  "final (Returned s) = s"
| "final (Threw e s) = s"

fun returns :: "'s outcome \<Rightarrow> bool" where
  "returns (Returned s) = True"
| "returns (Threw e s) = False"

fun thrown :: "'s outcome \<Rightarrow> error option" where
  "thrown (Returned s) = None"
| "thrown (Threw e s) = Some e"

text \<open>Sequencing of statements: what follows a throwing statement does not run.\<close>

fun andThen :: "'s outcome \<Rightarrow> ('s \<Rightarrow> 's outcome) \<Rightarrow> 's outcome" where
  "andThen (Returned s) f = f s"
| "andThen (Threw e s) f = Threw e s"

subsection \<open>Numbers in template strings\<close>

text \<open>
  \<^verbatim>\<open>`translateX(${translateX}px)`\<close> prints an integer in decimal; the negative zero that
  \<^verbatim>\<open>-currentSlide * slideWidth\<close> gives at slide 0 prints as \<^verbatim>\<open>0\<close>. (The exponent notation
  of numbers from \<open>10\<^sup>2\<^sup>1\<close> on is out of reach of pixel widths and is not modelled.)
\<close>

fun show_nat :: "nat \<Rightarrow> string" where
  "show_nat n = (if n < 10 then [''0123456789'' ! n]
                 else show_nat (n div 10) @ [''0123456789'' ! (n mod 10)])"

declare show_nat.simps [simp del]

definition show_int :: "int \<Rightarrow> string" where
  "show_int i = (if i < 0 then CHR ''-'' # show_nat (nat (- i)) else show_nat (nat i))"

subsection \<open>Double-precision numbers\<close>

text \<open>
  Pointer coordinates and rectangles are doubles. \<open>Double m e\<close> is the number \<open>m \<cdot> 2\<^sup>e\<close>; a
  double is such a number with a mantissa below \<open>2\<^sup>5\<^sup>3\<close> in magnitude. Subtraction is the exact
  difference rounded to 53 significant bits, to the nearest and at a tie to the even
  mantissa, as IEEE 754 has it; halving and the maximum are exact. Not-a-number, the
  infinities, and overflow or underflow of the exponent are not represented: a coordinate is
  finite, and a difference of coordinates is far from both ends of the exponent range.
\<close>

datatype double = Double int int

fun valueOf :: "double \<Rightarrow> real" where
  "valueOf (Double m e) =
     (if 0 \<le> e then of_int m * 2 ^ nat e else of_int m / 2 ^ nat (- e))"

text \<open>\<open>n\<close> without its \<open>k\<close> lowest bits, rounded to the nearest, a tie to the even.\<close>

definition roundHalfEven :: "int \<Rightarrow> nat \<Rightarrow> int" where
  "roundHalfEven n k =
     (let q = n div 2 ^ k; r = n mod 2 ^ k; h = 2 ^ (k - 1)
      in if r > h \<or> (r = h \<and> odd q) then q + 1 else q)"

text \<open>\<open>M \<cdot> 2\<^sup>E\<close> rounded to 53 significant bits.\<close>

definition rounded :: "int \<Rightarrow> int \<Rightarrow> double" where
  "rounded M E =
     (let k = bitlen \<bar>M\<bar> - 53
      in if k \<le> 0 then Double M E
         else Double (sgn M * roundHalfEven \<bar>M\<bar> (nat k)) (E + k))"

fun dsub :: "double \<Rightarrow> double \<Rightarrow> double" where
  "dsub (Double m1 e1) (Double m2 e2) =
     (let E = min e1 e2
      in rounded (m1 * 2 ^ nat (e1 - E) - m2 * 2 ^ nat (e2 - E)) E)"

fun dhalf :: "double \<Rightarrow> double" where
  "dhalf (Double m e) = Double m (e - 1)"

text \<open>\<^verbatim>\<open>Math.max\<close>.\<close>

definition dmax :: "double \<Rightarrow> double \<Rightarrow> double" where
  "dmax a b = (if valueOf a < valueOf b then b else a)"

subsection \<open>The shared configuration objects\<close>

text \<open>
  \<^verbatim>\<open>CONFIG\<close> and \<^verbatim>\<open>VALIDATION\<close> are object literals bound by \<^verbatim>\<open>const\<close>: the binding is fixed,
  the object's properties are writable, so both are part of the state. The record has the
  properties of both revisions' literals: \<open>mobileBreakpoint\<close> exists only in the first and
  \<open>breakpoints\<close> only in the second, and no revision reads the property its literal lacks
  (the literal of that revision leaves it 0 here).
\<close>

record hours =
  opens :: nat
  closes :: nat

record breakpoints =
  mobile :: int
  mobileLarge :: int
  tablet :: int
  desktop :: int
  large :: int

record config =
  scrollDuration :: nat
  testimonialInterval :: nat
  fadeInThreshold :: real
  mobileBreakpoint :: int
  breakpoints :: breakpoints
  maxPersons :: nat
  minPersons :: nat
  businessHours :: "(string \<times> hours) list"

record validation =
  email :: string
  phone :: string

definition weekdays :: "(string \<times> hours) list" where
  "weekdays =
    [(''monday'', \<lparr>opens = 8, closes = 20\<rparr>), (''tuesday'', \<lparr>opens = 8, closes = 20\<rparr>),
     (''wednesday'', \<lparr>opens = 8, closes = 20\<rparr>), (''thursday'', \<lparr>opens = 8, closes = 20\<rparr>),
     (''friday'', \<lparr>opens = 8, closes = 20\<rparr>), (''saturday'', \<lparr>opens = 14, closes = 20\<rparr>),
     (''sunday'', \<lparr>opens = 14, closes = 20\<rparr>)]"

fun CONFIG_of :: "revision \<Rightarrow> config" where
  "CONFIG_of First =
     \<lparr>scrollDuration = 800, testimonialInterval = 5000, fadeInThreshold = 1 / 10,
      mobileBreakpoint = 768,
      breakpoints = \<lparr>mobile = 0, mobileLarge = 0, tablet = 0, desktop = 0, large = 0\<rparr>,
      maxPersons = 10, minPersons = 1, businessHours = weekdays\<rparr>"
| "CONFIG_of Second =
     \<lparr>scrollDuration = 800, testimonialInterval = 5000, fadeInThreshold = 1 / 10,
      mobileBreakpoint = 0,
      breakpoints = \<lparr>mobile = 480, mobileLarge = 767, tablet = 1023, desktop = 1199,
                     large = 1200\<rparr>,
      maxPersons = 10, minPersons = 1, businessHours = weekdays\<rparr>"

text \<open>
  The two regular expressions, kept as their source text (\<open>bs\<close> is the backslash); nothing
  in either revision matches with them.
\<close>

definition bs :: string where
  "bs = [CHR 0x5C]"

definition VALIDATION_0 :: validation where
  "VALIDATION_0 =
     \<lparr>email = ''^[^'' @ bs @ ''s@]+@[^'' @ bs @ ''s@]+'' @ bs @ ''.[^'' @ bs @ ''s@]+$'',
      phone = ''^['' @ bs @ ''+]?[0-9'' @ bs @ ''s'' @ bs @ ''-'' @ bs @ ''('' @ bs @ '')]{10,}$''\<rparr>"

subsection \<open>DOM nodes\<close>

text \<open>
  Of a DOM element the script touches the class list, the inline style, the \<^verbatim>\<open>disabled\<close>
  property, and it reads the layout width \<^verbatim>\<open>offsetWidth\<close> (an integer number of pixels).
\<close>

record element =
  classList :: "string list"
  style :: "string \<Rightarrow> string"
  disabled :: bool
  offsetWidth :: int

text \<open>\<^verbatim>\<open>classList.toggle(token, force)\<close>: adds the token when \<open>force\<close>, removes it otherwise.\<close>

definition classList_toggle :: "string \<Rightarrow> bool \<Rightarrow> element \<Rightarrow> element" where
  "classList_toggle token force el =
     (if force
      then (if token \<in> set (classList el) then el
            else el\<lparr>classList := classList el @ [token]\<rparr>)
      else el\<lparr>classList := removeAll token (classList el)\<rparr>)"

definition classList_add :: "string \<Rightarrow> element \<Rightarrow> element" where
  "classList_add token el = classList_toggle token True el"

definition set_style :: "string \<Rightarrow> string \<Rightarrow> element \<Rightarrow> element" where
  "set_style property v el = el\<lparr>style := (style el)(property := v)\<rparr>"

subsection \<open>Event targets, listeners, timers, console\<close>

datatype target =
    NavLinkT nat | ButtonT nat
  | SliderT | PrevBtnT | NextBtnT | DotT nat
  | WindowT | HamburgerT

text \<open>One constructor for each function the script passes to \<^verbatim>\<open>addEventListener\<close>.\<close>

datatype handler =
    SmoothScrollClick | RippleClick
  | PrevClick | NextClick | DotClick nat
  | SliderMouseEnter | SliderMouseLeave
  | SliderTouchStart | SliderTouchMove | SliderTouchEnd
  | SliderResize
  | BeforeUnload | Load | HamburgerClick

text \<open>What a pending \<^verbatim>\<open>setTimeout\<close> will call.\<close>

datatype task = StartAutoPlay | DebouncedUpdateSlider | FinishLoading | RemoveRipple nat

datatype logentry = Log string | Error string error

subsection \<open>The page\<close>

text \<open>
  What \<^verbatim>\<open>document.querySelector\<close> answers for a selector that is not one of the script's own
  constants (the \<^verbatim>\<open>href\<close> of a navigation link): a \<^verbatim>\<open>SyntaxError\<close> when the string is not a
  selector (\<^verbatim>\<open>#\<close> alone, \<^verbatim>\<open>#1st\<close>), no element, or an element.
\<close>

datatype selection = Invalid | Absent | Present

text \<open>
  The \<^verbatim>\<open>span\<close> that the ripple listener creates: its class list and the four lengths of its
  inline style, which the script writes as the number followed by \<^verbatim>\<open>px\<close>.
\<close>

record span =
  spanClassList :: "string list"
  spanWidth :: double
  spanHeight :: double
  spanLeft :: double
  spanTop :: double

text \<open>
  What the other initializers see of the document: the \<^verbatim>\<open>href\<close> of each navigation link,
  the browser's answer to \<^verbatim>\<open>document.querySelector\<close>, the calls of \<^verbatim>\<open>scrollIntoView\<close> so far,
  whether the browser defines \<^verbatim>\<open>IntersectionObserver\<close>, the animated sections and which of
  them are observed, the result of \<^verbatim>\<open>$$('button, .btn')\<close>, the body,
  \<^verbatim>\<open>history.scrollRestoration\<close>, the scroll position, and the results of \<^verbatim>\<open>$('nav')\<close>,
  \<^verbatim>\<open>$('.nav-links')\<close>, \<^verbatim>\<open>$('.hamburger-menu')\<close> and \<^verbatim>\<open>$('.hero-content')\<close>.

  \<^verbatim>\<open>$$('button, .btn')\<close> may return nodes that another query returns too, the previous and the
  next button of the carousel as a rule. \<open>buttonTargets\<close> is that result as a list of
  references; \<open>buttons\<close> holds the elements of those that no other query returns
  (\<open>ButtonT k\<close> refers to the \<open>k\<close>-th of them). The ripple spans live in \<open>ripples\<close>, each with
  a number that identifies it and with the node it is a child of.
\<close>

record scenery =
  navLinks :: "string list"
  querySelector :: "string \<Rightarrow> selection"
  scrolledIntoView :: "string list"
  hasIntersectionObserver :: bool
  sections :: "element list"
  observed :: "nat list"
  buttonTargets :: "target list"
  buttons :: "element list"
  ripples :: "(nat \<times> target \<times> span) list"
  rippleCount :: nat
  body :: element
  scrollRestoration :: "string option"
  scrollPosition :: "int \<times> int"
  nav :: "element option"
  navList :: "element option"
  hamburger :: "element option"
  heroContent :: "element option"

text \<open>
  The state of the page: the two configuration objects, the window (console, width, timers,
  listeners), the five query results of \<^verbatim>\<open>initTestimonialSlider\<close>, the variables of its
  closure (\<open>currentSlide\<close>, \<open>isPlaying\<close>, \<open>autoPlayInterval\<close>, \<open>startX\<close>, \<open>isDragging\<close>, and the
  \<open>timeout\<close> of the debounced resize handler), and the rest of the document.

  A node found by two queries would be one object in the browser. The carousel writes
  \<^verbatim>\<open>style.transform\<close> only through \<open>slider\<close>, the class \<^verbatim>\<open>active\<close> only through \<open>dots\<close> and
  \<^verbatim>\<open>disabled\<close> only through \<open>prevBtn\<close> and \<open>nextBtn\<close> (two distinct ids), and reads only
  \<^verbatim>\<open>offsetWidth\<close> of the first item, which no script writes; so each query result is held
  on its own.
\<close>

record page =
  CONFIG :: config
  VALIDATION :: validation
  console :: "logentry list"
  innerWidth :: int
  timerCount :: nat
  intervals :: "(nat \<times> nat) list"
  timeouts :: "(nat \<times> task \<times> nat) list"
  listeners :: "(target \<times> string \<times> handler) list"
  slider :: "element option"
  dots :: "element list"
  prevBtn :: "element option"
  nextBtn :: "element option"
  testimonialItems :: "element list"
  currentSlide :: int
  isPlaying :: bool
  autoPlayInterval :: "nat option"
  startX :: double
  isDragging :: bool
  resizeTimeout :: "nat option"
  scenery :: scenery

text \<open>
  The console. The messages are the source's without their leading emoji; an entry of
  \<^verbatim>\<open>console.error\<close> keeps the error object it was given.
\<close>

definition console_log :: "string \<Rightarrow> page \<Rightarrow> page" where
  "console_log msg p = p\<lparr>console := console p @ [Log msg]\<rparr>"

definition console_error :: "string \<Rightarrow> error \<Rightarrow> page \<Rightarrow> page" where
  "console_error msg e p = p\<lparr>console := console p @ [Error msg e]\<rparr>"

definition addEventListener :: "target \<Rightarrow> string \<Rightarrow> handler \<Rightarrow> page \<Rightarrow> page" where
  "addEventListener t ty h p = p\<lparr>listeners := listeners p @ [(t, ty, h)]\<rparr>"

text \<open>
  Timers. \<^verbatim>\<open>setInterval\<close> and \<^verbatim>\<open>setTimeout\<close> draw their handles from one counter (browsers
  count upwards, so a handle is never given twice), and \<^verbatim>\<open>clearInterval\<close> and
  \<^verbatim>\<open>clearTimeout\<close> both cancel whatever timer has the handle; \<^verbatim>\<open>undefined\<close> (here \<open>None\<close>)
  and a handle that is no longer active cancel nothing. Every interval of the script is the
  autoplay callback of \<^verbatim>\<open>startAutoPlay\<close>.
\<close>

definition setInterval :: "nat \<Rightarrow> page \<Rightarrow> nat \<times> page" where
  "setInterval delay p =
     (let h = timerCount p + 1
      in (h, p\<lparr>timerCount := h, intervals := intervals p @ [(h, delay)]\<rparr>))"

definition setTimeout :: "task \<Rightarrow> nat \<Rightarrow> page \<Rightarrow> nat \<times> page" where
  "setTimeout f delay p =
     (let h = timerCount p + 1
      in (h, p\<lparr>timerCount := h, timeouts := timeouts p @ [(h, f, delay)]\<rparr>))"

definition clearTimer :: "nat option \<Rightarrow> page \<Rightarrow> page" where
  "clearTimer handle p =
     (case handle of
        None \<Rightarrow> p
      | Some h \<Rightarrow> p\<lparr>intervals := filter (\<lambda>t. fst t \<noteq> h) (intervals p),
                    timeouts := filter (\<lambda>t. fst t \<noteq> h) (timeouts p)\<rparr>)"

section \<open>The testimonial carousel\<close>

text \<open>\<^verbatim>\<open>getDeviceType\<close> (second revision).\<close>

definition getDeviceType :: "page \<Rightarrow> string" where
  "getDeviceType p =
     (let width = innerWidth p in
      if width \<le> mobile (breakpoints (CONFIG p)) then ''mobile''
      else if width \<le> mobileLarge (breakpoints (CONFIG p)) then ''mobile-large''
      else if width \<le> tablet (breakpoints (CONFIG p)) then ''tablet''
      else if width \<le> desktop (breakpoints (CONFIG p)) then ''desktop''
      else ''large'')"

text \<open>The gap that \<^verbatim>\<open>getSlideWidth\<close> adds to the width of the first item.\<close>

fun responsiveGap :: "revision \<Rightarrow> page \<Rightarrow> int" where
  "responsiveGap First p = (if innerWidth p \<le> 768 then 20 else 40)"
| "responsiveGap Second p =
     (let deviceType = getDeviceType p in
      if deviceType = ''mobile'' then 15
      else if deviceType = ''mobile-large'' then 20
      else if deviceType = ''tablet'' then 30
      else 40)"

definition getSlideWidth :: "revision \<Rightarrow> page \<Rightarrow> int" where
  "getSlideWidth rv p =
     (case testimonialItems p of
        [] \<Rightarrow> 390
      | item # _ \<Rightarrow> offsetWidth item + responsiveGap rv p)"

definition startAutoPlay :: "page \<Rightarrow> page" where
  "startAutoPlay p =
     (let (h, p') = setInterval (testimonialInterval (CONFIG p)) p
      in p'\<lparr>autoPlayInterval := Some h\<rparr>)"

definition stopAutoPlay :: "page \<Rightarrow> page" where
  "stopAutoPlay p = clearTimer (autoPlayInterval p) p"

text \<open>
  \<^verbatim>\<open>updateSlider\<close>. A property write through \<^verbatim>\<open>null\<close> throws a \<^verbatim>\<open>TypeError\<close>; the writes
  before it have happened.
\<close>

definition updateSlider :: "revision \<Rightarrow> page \<Rightarrow> page outcome" where
  "updateSlider rv p =
     (let slideWidth = getSlideWidth rv p;
          translateX = - currentSlide p * slideWidth
      in case slider p of
           None \<Rightarrow> Threw (TypeError ''slider is null'') p
         | Some s \<Rightarrow>
            (let p1 = p\<lparr>slider :=
                         Some (set_style ''transform''
                                 (''translateX('' @ show_int translateX @ ''px)'') s),
                       dots := map (\<lambda>(index, dot).
                                      classList_toggle ''active'' (int index = currentSlide p) dot)
                                   (enumerate 0 (dots p))\<rparr>
             in case prevBtn p1 of
                  None \<Rightarrow> Threw (TypeError ''prevBtn is null'') p1
                | Some b \<Rightarrow>
                   (let p2 = p1\<lparr>prevBtn := Some (b\<lparr>disabled := (currentSlide p1 = 0)\<rparr>)\<rparr>
                    in case nextBtn p2 of
                         None \<Rightarrow> Threw (TypeError ''nextBtn is null'') p2
                       | Some n \<Rightarrow>
                           Returned (p2\<lparr>nextBtn := Some (n\<lparr>disabled :=
                             (currentSlide p2 = int (length (testimonialItems p2)) - 1)\<rparr>)\<rparr>))))"

text \<open>
  \<^verbatim>\<open>nextSlide\<close> and \<^verbatim>\<open>prevSlide\<close>. The first revision calls \<^verbatim>\<open>updateSlider\<close> in each branch,
  the second once after the \<^verbatim>\<open>if\<close>; that is the same function.
\<close>

definition nextSlide :: "revision \<Rightarrow> page \<Rightarrow> page outcome" where
  "nextSlide rv p =
     (if currentSlide p < int (length (testimonialItems p)) - 1
      then updateSlider rv (p\<lparr>currentSlide := currentSlide p + 1\<rparr>)
      else updateSlider rv (p\<lparr>currentSlide := 0\<rparr>))"

definition prevSlide :: "revision \<Rightarrow> page \<Rightarrow> page outcome" where
  "prevSlide rv p =
     (if currentSlide p > 0
      then updateSlider rv (p\<lparr>currentSlide := currentSlide p - 1\<rparr>)
      else updateSlider rv (p\<lparr>currentSlide := int (length (testimonialItems p)) - 1\<rparr>))"

definition goToSlide :: "revision \<Rightarrow> int \<Rightarrow> page \<Rightarrow> page outcome" where
  "goToSlide rv slideIndex p = updateSlider rv (p\<lparr>currentSlide := slideIndex\<rparr>)"

subsection \<open>The handlers\<close>

text \<open>Manual navigation: move, stop the autoplay, resume it after ten seconds.\<close>

definition pauseAndResume :: "page \<Rightarrow> page" where
  "pauseAndResume p = snd (setTimeout StartAutoPlay 10000 (stopAutoPlay p))"

definition prevBtn_click :: "revision \<Rightarrow> page \<Rightarrow> page outcome" where
  "prevBtn_click rv p = andThen (prevSlide rv p) (\<lambda>q. Returned (pauseAndResume q))"

definition nextBtn_click :: "revision \<Rightarrow> page \<Rightarrow> page outcome" where
  "nextBtn_click rv p = andThen (nextSlide rv p) (\<lambda>q. Returned (pauseAndResume q))"

definition dot_click :: "revision \<Rightarrow> nat \<Rightarrow> page \<Rightarrow> page outcome" where
  "dot_click rv index p =
     andThen (goToSlide rv (int index) p) (\<lambda>q. Returned (pauseAndResume q))"

definition slider_mouseenter :: "page \<Rightarrow> page outcome" where
  "slider_mouseenter p = Returned (if isPlaying p then stopAutoPlay p else p)"

definition slider_mouseleave :: "page \<Rightarrow> page outcome" where
  "slider_mouseleave p = Returned (if isPlaying p then startAutoPlay p else p)"

text \<open>
  The touch handlers read \<^verbatim>\<open>e.touches[0].clientX\<close> and \<^verbatim>\<open>e.changedTouches[0].clientX\<close>. A
  browser puts the touch that began into \<^verbatim>\<open>touches\<close> of a \<^verbatim>\<open>touchstart\<close> and the touch that
  ended into \<^verbatim>\<open>changedTouches\<close> of a \<^verbatim>\<open>touchend\<close>, so both exist; the handlers take that
  coordinate as their argument.
\<close>

definition slider_touchstart :: "double \<Rightarrow> page \<Rightarrow> page outcome" where
  "slider_touchstart x p = Returned (stopAutoPlay (p\<lparr>startX := x, isDragging := True\<rparr>))"

definition slider_touchmove :: "page \<Rightarrow> page outcome" where
  "slider_touchmove p = (if \<not> isDragging p then Returned p else Returned p)"

definition slider_touchend :: "revision \<Rightarrow> double \<Rightarrow> page \<Rightarrow> page outcome" where
  "slider_touchend rv endX p =
     (if \<not> isDragging p then Returned p
      else
        let diffX = dsub (startX p) endX in
        andThen (if \<bar>valueOf diffX\<bar> > 50
                 then (if valueOf diffX > 0 then nextSlide rv p else prevSlide rv p)
                 else Returned p)
          (\<lambda>q. let q1 = q\<lparr>isDragging := False\<rparr>
               in Returned (if isPlaying q1 then snd (setTimeout StartAutoPlay 10000 q1)
                            else q1)))"

text \<open>
  The resize handler is \<^verbatim>\<open>debounce(() => updateSlider(), 250)\<close>: each call cancels the pending
  call and schedules \<^verbatim>\<open>later\<close>, which cancels once more and updates the slider.
\<close>

definition slider_resize :: "page \<Rightarrow> page outcome" where
  "slider_resize p =
     (let p1 = clearTimer (resizeTimeout p) p;
          (h, p2) = setTimeout DebouncedUpdateSlider 250 p1
      in Returned (p2\<lparr>resizeTimeout := Some h\<rparr>))"

definition later :: "revision \<Rightarrow> page \<Rightarrow> page outcome" where
  "later rv p = updateSlider rv (clearTimer (resizeTimeout p) p)"

text \<open>The callback of the autoplay interval.\<close>

definition autoPlayTick :: "revision \<Rightarrow> page \<Rightarrow> page outcome" where
  "autoPlayTick rv p = (if isPlaying p then nextSlide rv p else Returned p)"

subsection \<open>Initialization of the carousel\<close>

text \<open>
  The listeners that \<^verbatim>\<open>initTestimonialSlider\<close> registers after those of the two buttons: one
  per dot, pause on hover, touch (with the declarations of \<^verbatim>\<open>startX\<close> and \<^verbatim>\<open>isDragging\<close>), and
  the debounced resize (\<^verbatim>\<open>debounce\<close> declares its \<^verbatim>\<open>timeout\<close>).
\<close>

definition registerSliderListeners :: "page \<Rightarrow> page" where
  "registerSliderListeners p =
     (let p4 = foldl (\<lambda>q index. addEventListener (DotT index) ''click'' (DotClick index) q)
                 p [0..<length (dots p)];
          p5 = addEventListener SliderT ''mouseenter'' SliderMouseEnter p4;
          p6 = addEventListener SliderT ''mouseleave'' SliderMouseLeave p5;
          p7 = p6\<lparr>startX := Double 0 0, isDragging := False\<rparr>;
          p8 = addEventListener SliderT ''touchstart'' SliderTouchStart p7;
          p9 = addEventListener SliderT ''touchmove'' SliderTouchMove p8;
          p10 = addEventListener SliderT ''touchend'' SliderTouchEnd p9
      in addEventListener WindowT ''resize'' SliderResize (p10\<lparr>resizeTimeout := None\<rparr>))"

text \<open>
  \<^verbatim>\<open>initTestimonialSlider\<close>. The console messages of the first revision are kept without
  their leading emoji. \<^verbatim>\<open>prevBtn.addEventListener\<close> and \<^verbatim>\<open>nextBtn.addEventListener\<close> are
  method calls through a reference that may be \<^verbatim>\<open>null\<close>.
\<close>

definition initTestimonialSlider :: "revision \<Rightarrow> page \<Rightarrow> page outcome" where
  "initTestimonialSlider rv p0 =
     (let p = (case rv of
                 First \<Rightarrow> console_log ''Initializing testimonial slider...'' p0
               | Second \<Rightarrow> p0)
      in if slider p = None \<or> dots p = [] then Returned p
         else
          (let p1 = p\<lparr>currentSlide := 0, isPlaying := True, autoPlayInterval := None\<rparr>
           in case prevBtn p1 of
                None \<Rightarrow> Threw (TypeError ''prevBtn is null'') p1
              | Some _ \<Rightarrow>
                 (let p2 = addEventListener PrevBtnT ''click'' PrevClick p1
                  in case nextBtn p2 of
                       None \<Rightarrow> Threw (TypeError ''nextBtn is null'') p2
                     | Some _ \<Rightarrow>
                        (let p3 = addEventListener NextBtnT ''click'' NextClick p2
                         in andThen (updateSlider rv (registerSliderListeners p3))
                              (\<lambda>q. Returned
                                 (case rv of
                                    First \<Rightarrow> console_log ''Testimonial slider initialized''
                                               (startAutoPlay q)
                                  | Second \<Rightarrow> startAutoPlay q))))))"

section \<open>The other features\<close>

definition updScenery :: "(scenery \<Rightarrow> scenery) \<Rightarrow> page \<Rightarrow> page" where
  "updScenery f p = p\<lparr>scenery := f (scenery p)\<rparr>"

text \<open>\<^verbatim>\<open>window.scrollTo(0, 0)\<close>.\<close>

definition scrollToTop :: "page \<Rightarrow> page" where
  "scrollToTop p = updScenery (\<lambda>s. s\<lparr>scrollPosition := (0, 0)\<rparr>) p"

text \<open>\<^verbatim>\<open>isMobile\<close>; the first revision defines it and never calls it.\<close>

fun isMobile :: "revision \<Rightarrow> page \<Rightarrow> bool" where
  "isMobile First p = (innerWidth p \<le> mobileBreakpoint (CONFIG p))"
| "isMobile Second p = (innerWidth p \<le> mobileLarge (breakpoints (CONFIG p)))"

subsection \<open>Smooth scrolling\<close>

definition initSmoothScrolling :: "revision \<Rightarrow> page \<Rightarrow> page outcome" where
  "initSmoothScrolling rv p0 =
     (let p = (case rv of
                 First \<Rightarrow> console_log ''Initializing smooth scrolling...'' p0
               | Second \<Rightarrow> p0)
      in Returned (foldl (\<lambda>q index. addEventListener (NavLinkT index) ''click'' SmoothScrollClick q)
                     p [0..<length (navLinks (scenery p))]))"

text \<open>
  The click listener of a navigation link whose \<^verbatim>\<open>href\<close> is \<open>targetId\<close>:
  \<^verbatim>\<open>e.preventDefault()\<close> writes nothing the script can read; \<^verbatim>\<open>$(targetId)\<close> is
  \<^verbatim>\<open>document.querySelector(targetId)\<close>, which throws when the \<^verbatim>\<open>href\<close> is not a selector; the
  section is scrolled into view when there is one.
\<close>

definition smoothScroll_click :: "string \<Rightarrow> page \<Rightarrow> page outcome" where
  "smoothScroll_click targetId p =
     (case querySelector (scenery p) targetId of
        Invalid \<Rightarrow> Threw (SyntaxError targetId) p
      | Absent \<Rightarrow> Returned p
      | Present \<Rightarrow>
          Returned (updScenery (\<lambda>s. s\<lparr>scrolledIntoView := scrolledIntoView s @ [targetId]\<rparr>) p))"

subsection \<open>Scroll animations\<close>

definition initScrollAnimations :: "revision \<Rightarrow> page \<Rightarrow> page outcome" where
  "initScrollAnimations rv p0 =
     (let p = (case rv of
                 First \<Rightarrow> console_log ''Initializing scroll animations...'' p0
               | Second \<Rightarrow> p0)
      in if \<not> hasIntersectionObserver (scenery p)
         then Threw (ReferenceError ''IntersectionObserver is not defined'') p
         else Returned (updScenery (\<lambda>s. s\<lparr>
                sections := map (\<lambda>section.
                              set_style ''transition'' ''all 0.8s ease-out''
                                (set_style ''transform'' ''translateY(30px)''
                                   (set_style ''opacity'' ''0'' section)))
                            (sections s),
                observed := observed s @ [0..<length (sections s)]\<rparr>) p))"

text \<open>The observer's callback; an entry is an observed section and whether it intersects.\<close>

definition reveal :: "nat \<times> bool \<Rightarrow> element list \<Rightarrow> element list" where
  "reveal entry secs =
     (if snd entry \<and> fst entry < length secs
      then secs[fst entry := set_style ''transform'' ''translateY(0)''
                               (set_style ''opacity'' ''1'' (secs ! fst entry))]
      else secs)"

definition observerCallback :: "(nat \<times> bool) list \<Rightarrow> page \<Rightarrow> page outcome" where
  "observerCallback entries p =
     Returned (updScenery (\<lambda>s. s\<lparr>sections :=
                 foldl (\<lambda>secs entry. reveal entry secs) (sections s) entries\<rparr>) p)"

subsection \<open>Hover animations\<close>

text \<open>\<^verbatim>\<open>initHoverAnimations\<close> registers the ripple listener on every button.\<close>

definition initHoverAnimations :: "revision \<Rightarrow> page \<Rightarrow> page outcome" where
  "initHoverAnimations rv p0 =
     (let p = (case rv of
                 First \<Rightarrow> console_log ''Initializing hover animations...'' p0
               | Second \<Rightarrow> p0)
      in Returned (foldl (\<lambda>q button. addEventListener button ''click'' RippleClick q)
                     p (buttonTargets (scenery p))))"

text \<open>
  A click as the ripple listener reads it: the pointer's \<^verbatim>\<open>clientX\<close> and \<^verbatim>\<open>clientY\<close>, and the
  rectangle that \<^verbatim>\<open>getBoundingClientRect\<close> gives for the clicked button at that moment.
\<close>

record click =
  clientX :: double
  clientY :: double
  rectLeft :: double
  rectTop :: double
  rectWidth :: double
  rectHeight :: double

text \<open>
  The ripple listener on the button \<open>this\<close>: a new \<^verbatim>\<open>span\<close>, sized and placed around the
  pointer, is appended to the button, and a timeout of 600 ms will remove it.
\<close>

definition ripple_click :: "target \<Rightarrow> click \<Rightarrow> page \<Rightarrow> page outcome" where
  "ripple_click this e p =
     (let size = dmax (rectWidth e) (rectHeight e);
          x = dsub (dsub (clientX e) (rectLeft e)) (dhalf size);
          y = dsub (dsub (clientY e) (rectTop e)) (dhalf size);
          ripple = \<lparr>spanClassList = [''ripple''], spanWidth = size, spanHeight = size,
                    spanLeft = x, spanTop = y\<rparr>;
          k = rippleCount (scenery p) + 1;
          p1 = updScenery (\<lambda>s. s\<lparr>rippleCount := k, ripples := ripples s @ [(k, this, ripple)]\<rparr>) p
      in Returned (snd (setTimeout (RemoveRipple k) 600 p1)))"

text \<open>\<^verbatim>\<open>ripple.remove()\<close>.\<close>

definition removeRipple :: "nat \<Rightarrow> page \<Rightarrow> page" where
  "removeRipple k p = updScenery (\<lambda>s. s\<lparr>ripples := filter (\<lambda>r. fst r \<noteq> k) (ripples s)\<rparr>) p"

subsection \<open>Loading animation\<close>

definition initLoadingAnimation :: "revision \<Rightarrow> page \<Rightarrow> page outcome" where
  "initLoadingAnimation rv p0 =
     (let p = (case rv of
                 First \<Rightarrow> console_log ''Initializing loading animations...'' p0
               | Second \<Rightarrow> p0);
          p1 = updScenery (\<lambda>s. s\<lparr>body := classList_add ''loading'' (body s)\<rparr>) p;
          p2 = addEventListener WindowT ''beforeunload'' BeforeUnload p1;
          p3 = addEventListener WindowT ''load'' Load p2
      in Returned (case scrollRestoration (scenery p3) of
                     None \<Rightarrow> p3
                   | Some v \<Rightarrow> if v = [] then p3
                              else updScenery (\<lambda>s. s\<lparr>scrollRestoration := Some ''manual''\<rparr>) p3))"

definition window_beforeunload :: "page \<Rightarrow> page outcome" where
  "window_beforeunload p = Returned (scrollToTop p)"

definition window_load :: "page \<Rightarrow> page outcome" where
  "window_load p = Returned (snd (setTimeout FinishLoading 500 (scrollToTop p)))"

definition finishLoading :: "page \<Rightarrow> page" where
  "finishLoading p =
     updScenery (\<lambda>s. s\<lparr>body := classList_add ''loaded''
                                   (classList_toggle ''loading'' False (body s))\<rparr>) p"

subsection \<open>Mobile menu and responsive layout\<close>

text \<open>An assignment to \<^verbatim>\<open>style.cssText\<close> replaces the whole inline style.\<close>

definition cssText :: "(string \<times> string) list \<Rightarrow> element \<Rightarrow> element" where
  "cssText declarations el =
     el\<lparr>style := (\<lambda>property. case map_of declarations property of None \<Rightarrow> [] | Some v \<Rightarrow> v)\<rparr>"

text \<open>
  The button that the second revision creates: \<^verbatim>\<open>className\<close> and \<^verbatim>\<open>style.cssText\<close> as
  assigned (its \<^verbatim>\<open>innerHTML\<close>, an icon, is not part of \<open>element\<close>); a fresh button is enabled
  and has no layout yet.
\<close>

definition newHamburger :: element where
  "newHamburger =
     cssText [(''display'', ''none''), (''background'', ''none''), (''border'', ''none''),
              (''color'', ''white''), (''font-size'', ''24px''), (''cursor'', ''pointer''),
              (''padding'', ''10px'')]
       \<lparr>classList = [''hamburger-menu''], style = (\<lambda>property. []), disabled = False,
        offsetWidth = 0\<rparr>"

definition navListCss :: "(string \<times> string) list" where
  "navListCss =
     [(''position'', ''absolute''), (''top'', ''100%''), (''left'', ''0''), (''right'', ''0''),
      (''background'', ''rgba(0, 0, 0, 0.9)''), (''flex-direction'', ''column''),
      (''padding'', ''20px''), (''transform'', ''translateY(-100%)''), (''opacity'', ''0''),
      (''visibility'', ''hidden''), (''transition'', ''all 0.3s ease'')]"

text \<open>
  \<^verbatim>\<open>initMobileMenu\<close>: a console message in the first revision. In the second,
  \<^verbatim>\<open>nav.appendChild\<close> and \<^verbatim>\<open>navLinks.style.cssText\<close> go through references that may be
  \<^verbatim>\<open>null\<close>; the created button is in the document, and found by \<^verbatim>\<open>$('.hamburger-menu')\<close>, once
  it is appended.
\<close>

definition showMobileMenu :: "page \<Rightarrow> page outcome" where
  "showMobileMenu p =
     (if innerWidth p \<le> mobile (breakpoints (CONFIG p))
      then (let p1 = updScenery (\<lambda>s. s\<lparr>hamburger :=
                       map_option (set_style ''display'' ''block'') (hamburger s)\<rparr>) p
            in case navList (scenery p1) of
                 None \<Rightarrow> Threw (TypeError ''navLinks is null'') p1
               | Some l \<Rightarrow>
                   Returned (updScenery (\<lambda>s. s\<lparr>navList := Some (cssText navListCss l)\<rparr>) p1))
      else Returned p)"

fun initMobileMenu :: "revision \<Rightarrow> page \<Rightarrow> page outcome" where
  "initMobileMenu First p = Returned (console_log ''Mobile menu ready for implementation'' p)"
| "initMobileMenu Second p =
     (if isMobile Second p
      then (case hamburger (scenery p) of
              Some h \<Rightarrow> showMobileMenu p
            | None \<Rightarrow>
               (case nav (scenery p) of
                  None \<Rightarrow> Threw (TypeError ''nav is null'') p
                | Some n \<Rightarrow>
                    showMobileMenu
                      (addEventListener HamburgerT ''click'' HamburgerClick
                         (updScenery (\<lambda>s. s\<lparr>hamburger := Some newHamburger\<rparr>) p))))
      else Returned p)"

definition hamburger_click :: "page \<Rightarrow> page outcome" where
  "hamburger_click p =
     (case navList (scenery p) of
        None \<Rightarrow> Threw (TypeError ''navLinks is null'') p
      | Some l \<Rightarrow>
          Returned (updScenery (\<lambda>s. s\<lparr>navList :=
            Some (classList_toggle ''mobile-active'' (''mobile-active'' \<notin> set (classList l)) l)\<rparr>) p))"

text \<open>\<^verbatim>\<open>handleResponsiveLayout\<close> (second revision).\<close>

definition itemBasis :: "string \<Rightarrow> string" where
  "itemBasis deviceType =
     (if deviceType = ''mobile'' then ''260px''
      else if deviceType = ''mobile-large'' then ''280px''
      else if deviceType = ''tablet'' then ''320px''
      else ''350px'')"

definition handleResponsiveLayout :: "page \<Rightarrow> page outcome" where
  "handleResponsiveLayout p =
     (let deviceType = getDeviceType p;
          p1 = p\<lparr>testimonialItems :=
                   map (\<lambda>item. set_style ''flex'' (''0 0 '' @ itemBasis deviceType)
                                 (set_style ''minWidth'' (itemBasis deviceType) item))
                       (testimonialItems p)\<rparr>
      in Returned (case heroContent (scenery p1) of
                     None \<Rightarrow> p1
                   | Some hero \<Rightarrow>
                       if isMobile Second p1
                       then updScenery (\<lambda>s. s\<lparr>heroContent :=
                              Some (set_style ''padding'' ''0 20px'' hero)\<rparr>) p1
                       else p1))"

subsection \<open>The placeholders\<close>

fun initFormValidation :: "revision \<Rightarrow> page \<Rightarrow> page outcome" where
  "initFormValidation First p =
     Returned (console_log ''Form validation ready for implementation'' p)"
| "initFormValidation Second p = Returned (console_log ''Form validation ready'' p)"

fun initBackToTop :: "revision \<Rightarrow> page \<Rightarrow> page outcome" where
  "initBackToTop First p = Returned (console_log ''Back to top ready for implementation'' p)"
| "initBackToTop Second p = Returned (console_log ''Back to top ready'' p)"

fun initBusinessHours :: "revision \<Rightarrow> page \<Rightarrow> page outcome" where
  "initBusinessHours First p =
     Returned (console_log ''Business hours ready for implementation'' p)"
| "initBusinessHours Second p = Returned (console_log ''Business hours ready'' p)"

fun initNewsletterSignup :: "revision \<Rightarrow> page \<Rightarrow> page outcome" where
  "initNewsletterSignup First p =
     Returned (console_log ''Newsletter signup ready for implementation'' p)"
| "initNewsletterSignup Second p = Returned (console_log ''Newsletter signup ready'' p)"

section \<open>Initialization of the page\<close>

text \<open>Statements in sequence: the first that throws ends the sequence.\<close>

fun inSequence :: "('s \<Rightarrow> 's outcome) list \<Rightarrow> 's \<Rightarrow> 's outcome" where
  "inSequence [] s = Returned s"
| "inSequence (f # fs) s = andThen (f s) (inSequence fs)"

text \<open>The calls inside the \<^verbatim>\<open>try\<close> block of \<^verbatim>\<open>initCoffeeWebsite\<close>, in their order.\<close>

fun initializers :: "revision \<Rightarrow> (page \<Rightarrow> page outcome) list" where
  "initializers First =
     [initSmoothScrolling First, initScrollAnimations First, initHoverAnimations First,
      initTestimonialSlider First, initLoadingAnimation First, initMobileMenu First,
      initFormValidation First, initBackToTop First, initBusinessHours First,
      initNewsletterSignup First]"
| "initializers Second =
     [initSmoothScrolling Second, initScrollAnimations Second, initHoverAnimations Second,
      initTestimonialSlider Second, initLoadingAnimation Second, initMobileMenu Second,
      handleResponsiveLayout]"

text \<open>
  \<^verbatim>\<open>initCoffeeWebsite\<close>: the \<^verbatim>\<open>try\<close> block ends with the success message, the \<^verbatim>\<open>catch\<close>
  block logs the error with \<^verbatim>\<open>console.error\<close>.
\<close>

definition initCoffeeWebsite :: "revision \<Rightarrow> page \<Rightarrow> page outcome" where
  "initCoffeeWebsite rv p =
     (case inSequence (initializers rv) (console_log ''Initializing Coffee Website...'' p) of
        Returned q \<Rightarrow> Returned (console_log ''Coffee Website initialized successfully!'' q)
      | Threw e q \<Rightarrow> Returned (console_error ''Error initializing Coffee Website:'' e q))"

text \<open>The listener of \<^verbatim>\<open>DOMContentLoaded\<close>.\<close>

definition document_DOMContentLoaded :: "revision \<Rightarrow> page \<Rightarrow> page outcome" where
  "document_DOMContentLoaded rv p = initCoffeeWebsite rv (scrollToTop p)"

text \<open>
  What the debounced top-level resize listener runs, and the listener of
  \<^verbatim>\<open>visibilitychange\<close> (\<open>hidden\<close> is \<^verbatim>\<open>document.hidden\<close>).
\<close>

fun window_resized :: "revision \<Rightarrow> page \<Rightarrow> page outcome" where
  "window_resized First p = Returned (console_log ''Window resized, adjusting layout...'' p)"
| "window_resized Second p =
     andThen (handleResponsiveLayout p)
       (\<lambda>q. let currentDevice = getDeviceType q
            in if currentDevice = ''mobile'' \<or> currentDevice = ''mobile-large''
               then initMobileMenu Second q
               else Returned q)"

definition document_visibilitychange :: "bool \<Rightarrow> page \<Rightarrow> page outcome" where
  "document_visibilitychange hidden p =
     Returned (if hidden then console_log ''Page hidden - pausing animations'' p
               else console_log ''Page visible - resuming animations'' p)"

section \<open>The page as a state machine\<close>

text \<open>
  The events of the loaded page: a click on a node, mouse and touch events on the slider, a
  resize of the window to a new width, the window's \<^verbatim>\<open>load\<close> and \<^verbatim>\<open>beforeunload\<close>, and the
  firing of an active interval or of a pending timeout. The browser runs one event at a
  time.
\<close>

datatype event =
    Click target click
  | MouseEnter | MouseLeave
  | TouchStart double | TouchMove | TouchEnd double
  | Resize int
  | WindowLoad | WindowBeforeUnload
  | IntervalFires nat
  | TimeoutFires nat

text \<open>What an event hands to its listeners.\<close>

datatype detail = Pointer click | Touch double | NoDetail

text \<open>
  The body of each listener of the carousel; \<open>x\<close> is the coordinate of the touch. The other
  listeners are not the carousel's.
\<close>

fun carouselHandler :: "revision \<Rightarrow> handler \<Rightarrow> double \<Rightarrow> (page \<Rightarrow> page outcome) option" where
  "carouselHandler rv PrevClick x = Some (prevBtn_click rv)"
| "carouselHandler rv NextClick x = Some (nextBtn_click rv)"
| "carouselHandler rv (DotClick index) x = Some (dot_click rv index)"
| "carouselHandler rv SliderMouseEnter x = Some slider_mouseenter"
| "carouselHandler rv SliderMouseLeave x = Some slider_mouseleave"
| "carouselHandler rv SliderTouchStart x = Some (slider_touchstart x)"
| "carouselHandler rv SliderTouchMove x = Some slider_touchmove"
| "carouselHandler rv SliderTouchEnd x = Some (slider_touchend rv x)"
| "carouselHandler rv SliderResize x = Some slider_resize"
| "carouselHandler rv _ x = None"

text \<open>
  The body of any listener, on the node \<open>this\<close> it is registered on. A listener receives only
  events of the type it is registered for: the ripple and the navigation listeners a click,
  the touch listeners a touch.
\<close>

definition touchOf :: "detail \<Rightarrow> double" where
  "touchOf d = (case d of Touch x \<Rightarrow> x | _ \<Rightarrow> Double 0 0)"

definition listenerBody ::
  "revision \<Rightarrow> target \<Rightarrow> detail \<Rightarrow> handler \<Rightarrow> page \<Rightarrow> page outcome" where
  "listenerBody rv this d h p =
     (case h of
        RippleClick \<Rightarrow> (case d of Pointer e \<Rightarrow> ripple_click this e p | _ \<Rightarrow> Returned p)
      | SmoothScrollClick \<Rightarrow>
          (case this of
             NavLinkT k \<Rightarrow>
               if k < length (navLinks (scenery p))
               then smoothScroll_click (navLinks (scenery p) ! k) p
               else Returned p
           | _ \<Rightarrow> Returned p)
      | BeforeUnload \<Rightarrow> window_beforeunload p
      | Load \<Rightarrow> window_load p
      | HamburgerClick \<Rightarrow> hamburger_click p
      | _ \<Rightarrow> (case carouselHandler rv h (touchOf d) of
                None \<Rightarrow> Returned p
              | Some f \<Rightarrow> f p))"

text \<open>
  Dispatch runs the listeners registered for the target and the event type, in the order of
  their registration. An exception leaves a listener, is reported by the browser, and the
  next listener runs on the state the failed one left.
\<close>

definition listenersFor :: "target \<Rightarrow> string \<Rightarrow> page \<Rightarrow> handler list" where
  "listenersFor t ty p =
     map (\<lambda>l. snd (snd l)) (filter (\<lambda>l. fst l = t \<and> fst (snd l) = ty) (listeners p))"

definition invoke :: "revision \<Rightarrow> target \<Rightarrow> detail \<Rightarrow> page \<Rightarrow> handler \<Rightarrow> page" where
  "invoke rv this d p h = final (listenerBody rv this d h p)"

definition dispatch :: "revision \<Rightarrow> target \<Rightarrow> string \<Rightarrow> detail \<Rightarrow> page \<Rightarrow> page" where
  "dispatch rv t ty d p = foldl (invoke rv t d) p (listenersFor t ty p)"

text \<open>
  A click reaches a node that exists and is not a disabled button: a disabled form control
  receives no click.
\<close>

fun receivesClick :: "target \<Rightarrow> page \<Rightarrow> bool" where
  "receivesClick PrevBtnT p = (case prevBtn p of None \<Rightarrow> False | Some b \<Rightarrow> \<not> disabled b)"
| "receivesClick NextBtnT p = (case nextBtn p of None \<Rightarrow> False | Some b \<Rightarrow> \<not> disabled b)"
| "receivesClick (DotT k) p = (k < length (dots p) \<and> \<not> disabled (dots p ! k))"
| "receivesClick (ButtonT k) p =
     (k < length (buttons (scenery p)) \<and> \<not> disabled (buttons (scenery p) ! k))"
| "receivesClick HamburgerT p =
     (case hamburger (scenery p) of None \<Rightarrow> False | Some b \<Rightarrow> \<not> disabled b)"
| "receivesClick SliderT p = (slider p \<noteq> None)"
| "receivesClick (NavLinkT k) p = (k < length (navLinks (scenery p)))"
| "receivesClick WindowT p = False"

text \<open>A timeout runs once: it leaves the table when it fires.\<close>

fun runTask :: "revision \<Rightarrow> task \<Rightarrow> page \<Rightarrow> page" where
  "runTask rv StartAutoPlay p = startAutoPlay p"
| "runTask rv DebouncedUpdateSlider p = final (later rv p)"
| "runTask rv FinishLoading p = finishLoading p"
| "runTask rv (RemoveRipple k) p = removeRipple k p"

fun fire :: "revision \<Rightarrow> event \<Rightarrow> page \<Rightarrow> page" where
  "fire rv (Click t e) p =
     (if receivesClick t p then dispatch rv t ''click'' (Pointer e) p else p)"
| "fire rv MouseEnter p = dispatch rv SliderT ''mouseenter'' NoDetail p"
| "fire rv MouseLeave p = dispatch rv SliderT ''mouseleave'' NoDetail p"
| "fire rv (TouchStart x) p = dispatch rv SliderT ''touchstart'' (Touch x) p"
| "fire rv TouchMove p = dispatch rv SliderT ''touchmove'' NoDetail p"
| "fire rv (TouchEnd x) p = dispatch rv SliderT ''touchend'' (Touch x) p"
| "fire rv (Resize w) p = dispatch rv WindowT ''resize'' NoDetail (p\<lparr>innerWidth := w\<rparr>)"
| "fire rv WindowLoad p = dispatch rv WindowT ''load'' NoDetail p"
| "fire rv WindowBeforeUnload p = dispatch rv WindowT ''beforeunload'' NoDetail p"
| "fire rv (IntervalFires h) p =
     (if h \<in> fst ` set (intervals p) then final (autoPlayTick rv p) else p)"
| "fire rv (TimeoutFires h) p =
     (case map_of (timeouts p) h of
        None \<Rightarrow> p
      | Some (f, delay) \<Rightarrow>
          runTask rv f (p\<lparr>timeouts := filter (\<lambda>t. fst t \<noteq> h) (timeouts p)\<rparr>))"

fun run :: "revision \<Rightarrow> event list \<Rightarrow> page \<Rightarrow> page" where
  "run rv [] p = p"
| "run rv (e # es) p = run rv es (fire rv e p)"

section \<open>A whole-page step, and what stays fixed\<close>

text \<open>
  Every operation of the page in one function: its initialization, an event, a report of the
  intersection observer, the debounced top-level resize, and \<^verbatim>\<open>visibilitychange\<close>.
\<close>

datatype operation =
    DOMContentLoaded
  | Event event
  | Intersections "(nat \<times> bool) list"
  | WindowResized
  | VisibilityChange bool

fun perform :: "revision \<Rightarrow> operation \<Rightarrow> page \<Rightarrow> page" where
  "perform rv DOMContentLoaded p = final (document_DOMContentLoaded rv p)"
| "perform rv (Event e) p = fire rv e p"
| "perform rv (Intersections entries) p = final (observerCallback entries p)"
| "perform rv WindowResized p = final (window_resized rv p)"
| "perform rv (VisibilityChange hidden) p = final (document_visibilitychange hidden p)"

text \<open>Operations one after the other.\<close>

fun performAll :: "revision \<Rightarrow> operation list \<Rightarrow> page \<Rightarrow> page" where
  "performAll rv [] p = p"
| "performAll rv (operation # operations) p = performAll rv operations (perform rv operation p)"

text \<open>
  Of an element, what is neither a CSS class nor an inline style; and of the page, what is
  neither a variable of the carousel's closure, nor a class or style of a node, nor the
  browser's own bookkeeping (console, timers, listeners, scrolling, observing, window
  width): the two configuration objects, the remaining properties of the nodes, what the
  document answers to queries, and the nodes that scripts add to the tree (the ripple spans,
  the hamburger button).
\<close>

type_synonym bare = "bool \<times> int"

definition beyondCss :: "element \<Rightarrow> bare" where
  "beyondCss el = (disabled el, offsetWidth el)"

definition sceneryBeyondCss ::
  "scenery \<Rightarrow> (string list \<times> (string \<Rightarrow> selection) \<times> bool \<times> target list) \<times>
               (bare list \<times> bare list \<times> bare \<times> bare option \<times> bare option \<times> bare option)" where
  "sceneryBeyondCss s =
     ((navLinks s, querySelector s, hasIntersectionObserver s, buttonTargets s),
      (map beyondCss (sections s), map beyondCss (buttons s), beyondCss (body s),
       map_option beyondCss (nav s), map_option beyondCss (navList s),
       map_option beyondCss (heroContent s)))"

definition carouselBeyondCss ::
  "page \<Rightarrow> bare option \<times> bare list \<times> bare list" where
  "carouselBeyondCss p =
     (map_option beyondCss (slider p), map beyondCss (dots p),
      map beyondCss (testimonialItems p))"

definition outsideClosureAndCss ::
  "page \<Rightarrow> (config \<times> validation) \<times> (bare option \<times> bare list \<times> bare list) \<times>
            (bare option \<times> bare option) \<times>
            ((string list \<times> (string \<Rightarrow> selection) \<times> bool \<times> target list) \<times>
             (bare list \<times> bare list \<times> bare \<times> bare option \<times> bare option \<times> bare option)) \<times>
            ((nat \<times> target \<times> span) list \<times> bare option)" where
  "outsideClosureAndCss p =
     ((CONFIG p, VALIDATION p), carouselBeyondCss p,
      (map_option beyondCss (prevBtn p), map_option beyondCss (nextBtn p)),
      sceneryBeyondCss (scenery p),
      (ripples (scenery p), map_option beyondCss (hamburger (scenery p))))"

text \<open>
  The same without the \<^verbatim>\<open>disabled\<close> property of the two buttons and without the nodes that
  scripts add to the tree.
\<close>

definition readOnlyPart ::
  "page \<Rightarrow> (config \<times> validation) \<times> (bare option \<times> bare list \<times> bare list) \<times>
            (int option \<times> int option) \<times>
            ((string list \<times> (string \<Rightarrow> selection) \<times> bool \<times> target list) \<times>
             (bare list \<times> bare list \<times> bare \<times> bare option \<times> bare option \<times> bare option))" where
  "readOnlyPart p =
     ((CONFIG p, VALIDATION p), carouselBeyondCss p,
      (map_option offsetWidth (prevBtn p), map_option offsetWidth (nextBtn p)),
      sceneryBeyondCss (scenery p))"

section \<open>The invariants of the carousel\<close>

definition indexInRange :: "page \<Rightarrow> bool" where
  "indexInRange p \<longleftrightarrow>
     0 \<le> currentSlide p \<and> currentSlide p < int (length (testimonialItems p))"

text \<open>
  The invariant of the running carousel: the index in range, as many dots as items, and a
  dot listener registered only for the index of an existing dot.
\<close>

definition carouselInvariant :: "page \<Rightarrow> bool" where
  "carouselInvariant p \<longleftrightarrow>
     indexInRange p \<and> length (dots p) = length (testimonialItems p) \<and>
     (\<forall>l \<in> set (listeners p). \<forall>index. snd (snd l) = DotClick index \<longrightarrow> index < length (dots p))"

text \<open>
  The buttons as \<^verbatim>\<open>updateSlider\<close> leaves them: all three elements exist, the previous button
  is disabled exactly on the first slide and the next button exactly on the last.
\<close>

definition buttonsInStep :: "page \<Rightarrow> bool" where
  "buttonsInStep p \<longleftrightarrow>
     slider p \<noteq> None \<and>
     (\<exists>b. prevBtn p = Some b \<and> (disabled b \<longleftrightarrow> currentSlide p = 0)) \<and>
     (\<exists>b. nextBtn p = Some b \<and>
          (disabled b \<longleftrightarrow> currentSlide p = int (length (testimonialItems p)) - 1))"

text \<open>
  The page shows the current slide: the slider is translated to it, its dot and no other is
  active, and the buttons are in step.
\<close>

definition showsCurrentSlide :: "revision \<Rightarrow> page \<Rightarrow> bool" where
  "showsCurrentSlide rv p \<longleftrightarrow>
     (\<exists>s. slider p = Some s \<and>
          style s ''transform'' =
            ''translateX('' @ show_int (- currentSlide p * getSlideWidth rv p) @ ''px)'') \<and>
     (\<forall>k < length (dots p).
          ''active'' \<in> set (classList (dots p ! k)) \<longleftrightarrow> int k = currentSlide p) \<and>
     buttonsInStep p"

text \<open>
  The carousel as the page's script sets it up: the invariant, the buttons in step, and on
  the next button, besides ripple listeners, the one click listener that calls
  \<^verbatim>\<open>nextSlide\<close>.
\<close>

definition carouselReady :: "page \<Rightarrow> bool" where
  "carouselReady p \<longleftrightarrow>
     carouselInvariant p \<and> buttonsInStep p \<and>
     filter (\<lambda>h. h \<noteq> RippleClick) (listenersFor NextBtnT ''click'' p) = [NextClick]"

text \<open>
  A step from \<open>p\<close> to \<open>q\<close> beside the carousel: it leaves the index, the slider, the two
  buttons and the numbers of dots and items, and registers listeners only on the window and
  on the hamburger button.
\<close>

definition besideCarousel :: "page \<Rightarrow> page \<Rightarrow> bool" where
  "besideCarousel p q \<longleftrightarrow>
     currentSlide q = currentSlide p \<and> slider q = slider p \<and> prevBtn q = prevBtn p \<and>
     nextBtn q = nextBtn p \<and> length (dots q) = length (dots p) \<and>
     length (testimonialItems q) = length (testimonialItems p) \<and>
     (\<exists>extra. listeners q = listeners p @ extra \<and>
        set extra \<subseteq> {(HamburgerT, ''click'', HamburgerClick), (WindowT, ''load'', Load),
                     (WindowT, ''beforeunload'', BeforeUnload)})"

section \<open>Example pages\<close>

definition plainElement :: element where
  "plainElement = \<lparr>classList = [], style = (\<lambda>property. []), disabled = False, offsetWidth = 350\<rparr>"

text \<open>
  A document in which \<^verbatim>\<open>$$('button, .btn')\<close> finds one button of its own and the two buttons
  of the carousel, and in which the second navigation link has no target.
\<close>

definition plainScenery :: scenery where
  "plainScenery =
     \<lparr>navLinks = [''#about'', ''#menu''],
      querySelector = (\<lambda>selector. if selector = ''#about'' then Present
                                   else if selector = ''#'' then Invalid else Absent),
      scrolledIntoView = [], hasIntersectionObserver = True,
      sections = [plainElement, plainElement], observed = [],
      buttonTargets = [ButtonT 0, PrevBtnT, NextBtnT], buttons = [plainElement],
      ripples = [], rippleCount = 0, body = plainElement, scrollRestoration = Some ''auto'',
      scrollPosition = (0, 120), nav = Some plainElement, navList = Some plainElement,
      hamburger = None, heroContent = Some plainElement\<rparr>"

text \<open>A page as loaded, before any script has run: three testimonials, three dots.\<close>

definition threeSlides :: "revision \<Rightarrow> page" where
  "threeSlides rv =
     \<lparr>CONFIG = CONFIG_of rv, VALIDATION = VALIDATION_0, console = [], innerWidth = 1024,
      timerCount = 0, intervals = [], timeouts = [], listeners = [],
      slider = Some plainElement, dots = [plainElement, plainElement, plainElement],
      prevBtn = Some plainElement, nextBtn = Some plainElement,
      testimonialItems = [plainElement, plainElement, plainElement],
      currentSlide = 0, isPlaying = False, autoPlayInterval = None, startX = Double 0 0,
      isDragging = False, resizeTimeout = None, scenery = plainScenery\<rparr>"

text \<open>The same page without the element \<^verbatim>\<open>#prevBtn\<close>.\<close>

definition noPrevButton :: "revision \<Rightarrow> page" where
  "noPrevButton rv = (threeSlides rv)\<lparr>prevBtn := None\<rparr>"

text \<open>The carousel of \<open>threeSlides\<close> after its initialization.\<close>

definition running :: "revision \<Rightarrow> page" where
  "running rv = final (initTestimonialSlider rv (threeSlides rv))"

text \<open>The same page without the element \<^verbatim>\<open>#nextBtn\<close>.\<close>

definition noNextButton :: "revision \<Rightarrow> page" where
  "noNextButton rv = (threeSlides rv)\<lparr>nextBtn := None\<rparr>"

text \<open>The three slides with the index at the last one.\<close>

definition lastSlide :: "revision \<Rightarrow> page" where
  "lastSlide rv = (threeSlides rv)\<lparr>currentSlide := 2\<rparr>"

text \<open>The three slides with a finger down at 300 pixels.\<close>

definition dragging :: "revision \<Rightarrow> page" where
  "dragging rv = (threeSlides rv)\<lparr>startX := Double 300 0, isDragging := True\<rparr>"

text \<open>A click at (40, 30) on a button whose rectangle is 100 by 40 at (10, 20).\<close>

definition aClick :: click where
  "aClick =
     \<lparr>clientX = Double 40 0, clientY = Double 30 0, rectLeft = Double 10 0,
      rectTop = Double 20 0, rectWidth = Double 100 0, rectHeight = Double 40 0\<rparr>"

text \<open>
  The running carousel after a click on the next button, the pointer then entering the
  slider and staying there, and the ten seconds of the click's timeout (handle 2) passing.
\<close>

definition hoveredAfterClick :: "revision \<Rightarrow> page" where
  "hoveredAfterClick rv =
     run rv [Click NextBtnT aClick, MouseEnter, TimeoutFires 2] (running rv)"

text \<open>The second revision's page on a phone, without a \<^verbatim>\<open>nav\<close> element.\<close>

definition phoneWithoutNav :: page where
  "phoneWithoutNav =
     (threeSlides Second)\<lparr>innerWidth := 400, scenery := plainScenery\<lparr>nav := None\<rparr>\<rparr>"

text \<open>
  The page with its script run, after one click on the next button, and on its last slide
  after a second one.
\<close>

definition loaded :: "revision \<Rightarrow> page" where
  "loaded rv = perform rv DOMContentLoaded (threeSlides rv)"

definition clickedOnce :: "revision \<Rightarrow> page" where
  "clickedOnce rv = fire rv (Click NextBtnT aClick) (loaded rv)"

definition clickedToLast :: "revision \<Rightarrow> page" where
  "clickedToLast rv = fire rv (Click NextBtnT aClick) (clickedOnce rv)"

section \<open>Outcomes and sequencing\<close>

lemma final_andThen:
  "final (andThen r f) = (if returns r then final (f (final r)) else final r)"
  by (cases r) simp_all

lemma returns_andThen: "returns (andThen r f) \<longleftrightarrow> returns r \<and> returns (f (final r))"
  by (cases r) simp_all

lemma Returned_final: "returns r \<Longrightarrow> r = Returned (final r)"
  by (cases r) simp_all

lemma Threw_final: "thrown r = Some e \<Longrightarrow> r = Threw e (final r)"
  by (cases r) simp_all

lemma inSequence_append:
  "inSequence (fs @ gs) s = andThen (inSequence fs s) (inSequence gs)"
proof (induction fs arbitrary: s)
  case Nil
  show ?case by simp
next
  case (Cons f fs)
  show ?case by (cases "f s") (simp_all add: Cons.IH)
qed

section \<open>What the carousel's functions leave alone\<close>

lemma updateSlider_keeps:
  "currentSlide (final (updateSlider rv p)) = currentSlide p"
  "testimonialItems (final (updateSlider rv p)) = testimonialItems p"
  "length (dots (final (updateSlider rv p))) = length (dots p)"
  "isPlaying (final (updateSlider rv p)) = isPlaying p"
  "isDragging (final (updateSlider rv p)) = isDragging p"
  "startX (final (updateSlider rv p)) = startX p"
  "intervals (final (updateSlider rv p)) = intervals p"
  "timeouts (final (updateSlider rv p)) = timeouts p"
  "listeners (final (updateSlider rv p)) = listeners p"
  by (simp_all add: updateSlider_def Let_def split: option.splits)

lemma updateSlider_returns:
  "returns (updateSlider rv p) \<longleftrightarrow>
     slider p \<noteq> None \<and> prevBtn p \<noteq> None \<and> nextBtn p \<noteq> None"
  by (auto simp add: updateSlider_def Let_def split: option.splits)

lemma nextSlide_index:
  "currentSlide (final (nextSlide rv p)) =
     (if currentSlide p < int (length (testimonialItems p)) - 1 then currentSlide p + 1 else 0)"
  by (simp add: nextSlide_def updateSlider_keeps)

lemma prevSlide_index:
  "currentSlide (final (prevSlide rv p)) =
     (if currentSlide p > 0 then currentSlide p - 1 else int (length (testimonialItems p)) - 1)"
  by (simp add: prevSlide_def updateSlider_keeps)

lemma nextSlide_keeps:
  "testimonialItems (final (nextSlide rv p)) = testimonialItems p"
  "length (dots (final (nextSlide rv p))) = length (dots p)"
  by (simp_all add: nextSlide_def updateSlider_keeps)

lemma prevSlide_keeps:
  "testimonialItems (final (prevSlide rv p)) = testimonialItems p"
  "length (dots (final (prevSlide rv p))) = length (dots p)"
  by (simp_all add: prevSlide_def updateSlider_keeps)

lemma pauseAndResume_keeps:
  "currentSlide (pauseAndResume p) = currentSlide p"
  "testimonialItems (pauseAndResume p) = testimonialItems p"
  "dots (pauseAndResume p) = dots p"
  by (simp_all add: pauseAndResume_def setTimeout_def stopAutoPlay_def clearTimer_def Let_def
      split: option.splits)

lemma console_log_keeps:
  "currentSlide (console_log m p) = currentSlide p"
  "testimonialItems (console_log m p) = testimonialItems p"
  "dots (console_log m p) = dots p"
  "slider (console_log m p) = slider p"
  "prevBtn (console_log m p) = prevBtn p"
  "nextBtn (console_log m p) = nextBtn p"
  by (simp_all add: console_log_def)

lemma addEventListener_keeps:
  "currentSlide (addEventListener t ty h p) = currentSlide p"
  "testimonialItems (addEventListener t ty h p) = testimonialItems p"
  "dots (addEventListener t ty h p) = dots p"
  "slider (addEventListener t ty h p) = slider p"
  "prevBtn (addEventListener t ty h p) = prevBtn p"
  "nextBtn (addEventListener t ty h p) = nextBtn p"
  by (simp_all add: addEventListener_def)

lemma foldl_addEventListener:
  "foldl (\<lambda>q i. addEventListener (t i) ty (h i) q) p xs =
     p\<lparr>listeners := listeners p @ map (\<lambda>i. (t i, ty, h i)) xs\<rparr>"
  by (induction xs arbitrary: p) (simp_all add: addEventListener_def)

lemma registerSliderListeners_keeps:
  "currentSlide (registerSliderListeners p) = currentSlide p"
  "testimonialItems (registerSliderListeners p) = testimonialItems p"
  "dots (registerSliderListeners p) = dots p"
  "slider (registerSliderListeners p) = slider p"
  "prevBtn (registerSliderListeners p) = prevBtn p"
  "nextBtn (registerSliderListeners p) = nextBtn p"
  by (simp_all add: registerSliderListeners_def Let_def foldl_addEventListener
      addEventListener_keeps)

lemma startAutoPlay_keeps:
  "currentSlide (startAutoPlay p) = currentSlide p"
  "testimonialItems (startAutoPlay p) = testimonialItems p"
  "dots (startAutoPlay p) = dots p"
  by (simp_all add: startAutoPlay_def setInterval_def Let_def)

lemma clearTimer_nodes:
  "slider (clearTimer h p) = slider p"
  "prevBtn (clearTimer h p) = prevBtn p"
  "nextBtn (clearTimer h p) = nextBtn p"
  by (simp_all add: clearTimer_def split: option.splits)

section \<open>Navigation\<close>

text \<open>
  The click listener of the next button leaves the index where \<^verbatim>\<open>nextSlide\<close> puts it: at
  \<open>(i + 1) mod n\<close> for \<open>n \<ge> 1\<close> items and \<open>0 \<le> i < n\<close>.
\<close>

lemma nextSlide_mod:
  assumes "n = int (length (testimonialItems p))" and "1 \<le> n"
    and "0 \<le> currentSlide p" and "currentSlide p < n"
  shows "currentSlide (final (nextSlide rv p)) = (currentSlide p + 1) mod n"
proof (cases "currentSlide p < n - 1")
  case True
  then show ?thesis using assms(1,3) by (simp add: nextSlide_index)
next
  case False
  then have "currentSlide p + 1 = n" using assms(4) by simp
  then show ?thesis using False assms(1) by (simp add: nextSlide_index)
qed

lemma nextBtn_click_listener_index:
  "currentSlide (final (nextBtn_click rv p)) = currentSlide (final (nextSlide rv p))"
  by (simp add: nextBtn_click_def final_andThen pauseAndResume_keeps)

text \<open>
  Claim C8. With \<open>n \<ge> 1\<close> items and \<open>0 \<le> i < n\<close>, \<^verbatim>\<open>nextSlide\<close> followed by \<^verbatim>\<open>prevSlide\<close> brings
  the index back to \<open>i\<close>, and so does \<^verbatim>\<open>prevSlide\<close> followed by \<^verbatim>\<open>nextSlide\<close>.
\<close>

theorem next_prev_inverse:
  assumes "n = int (length (testimonialItems p))" and "1 \<le> n"
    and "0 \<le> currentSlide p" and "currentSlide p < n"
  shows "currentSlide (final (prevSlide rv (final (nextSlide rv p)))) = currentSlide p \<and>
         currentSlide (final (nextSlide rv (final (prevSlide rv p)))) = currentSlide p"
  using assms
  by (simp add: nextSlide_index prevSlide_index nextSlide_def prevSlide_def updateSlider_keeps)

theorem next_prev_inverse_witness:
  "currentSlide (lastSlide First) = 2 \<and>
   currentSlide (final (prevSlide First (final (nextSlide First (lastSlide First))))) = 2 \<and>
   currentSlide (final (nextSlide First (final (prevSlide First (lastSlide First))))) = 2"
proof -
  have n: "(3::int) = int (length (testimonialItems (lastSlide First)))"
    by code_simp
  have i: "currentSlide (lastSlide First) = 2"
    by code_simp
  from next_prev_inverse [OF n, of First] i show ?thesis by simp
qed

section \<open>What updateSlider shows\<close>

lemma classList_toggle_mem:
  "token \<in> set (classList (classList_toggle token force el)) \<longleftrightarrow> force"
  by (simp add: classList_toggle_def)

lemma updateSlider_dots:
  "dots (final (updateSlider rv p)) =
     (if slider p = None then dots p
      else map (\<lambda>(index, dot). classList_toggle ''active'' (int index = currentSlide p) dot)
             (enumerate 0 (dots p)))"
  by (simp add: updateSlider_def Let_def split: option.splits)

lemma updateSlider_active:
  assumes "slider p \<noteq> None" and "k < length (dots p)"
  shows "''active'' \<in> set (classList (dots (final (updateSlider rv p)) ! k)) \<longleftrightarrow>
         int k = currentSlide p"
  using assms by (auto simp add: updateSlider_dots nth_enumerate_eq classList_toggle_mem)



section \<open>Swipes\<close>

lemma valueOf_minus: "valueOf (Double (- m) e) = - valueOf (Double m e)"
  by simp

text \<open>The subtraction of doubles is antisymmetric: \<^verbatim>\<open>b - a\<close> is \<^verbatim>\<open>-(a - b)\<close>.\<close>

lemma dsub_antisym: "valueOf (dsub b a) = - valueOf (dsub a b)"
proof (cases a; cases b)
  fix m1 e1 m2 e2
  assume a: "a = Double m1 e1" and b: "b = Double m2 e2"
  define E where "E = min e1 e2"
  define M where "M = m1 * 2 ^ nat (e1 - E) - m2 * 2 ^ nat (e2 - E)"
  have ab: "dsub a b = rounded M E" and ba: "dsub b a = rounded (- M) E"
    by (simp_all add: a b M_def E_def Let_def min.commute)
  have "valueOf (rounded (- M) E) = - valueOf (rounded M E)"
    by (simp add: rounded_def Let_def)
  with ab ba show ?thesis by simp
qed

lemma touchend_index:
  "isDragging p \<Longrightarrow>
   currentSlide (final (slider_touchend rv endX p)) =
     (if \<bar>valueOf (dsub (startX p) endX)\<bar> > 50
      then (if valueOf (dsub (startX p) endX) > 0 then currentSlide (final (nextSlide rv p))
            else currentSlide (final (prevSlide rv p)))
      else currentSlide p)"
  by (simp add: slider_touchend_def Let_def final_andThen setTimeout_def)

lemma touchend_items:
  "testimonialItems (final (slider_touchend rv x p)) = testimonialItems p"
  by (simp add: slider_touchend_def Let_def final_andThen setTimeout_def nextSlide_keeps
      prevSlide_keeps)

text \<open>
  After \<^verbatim>\<open>updateSlider\<close> has returned, the page shows the current slide; and so it does after
  a swipe.
\<close>

lemma buttonsInStep_updateSlider:
  assumes "slider p \<noteq> None" and "prevBtn p \<noteq> None" and "nextBtn p \<noteq> None"
  shows "buttonsInStep (final (updateSlider rv p))"
proof -
  from assms obtain s b n where "slider p = Some s" "prevBtn p = Some b" "nextBtn p = Some n"
    by auto
  then show ?thesis
    by (simp add: buttonsInStep_def updateSlider_def Let_def)
qed

lemma updateSlider_showsCurrentSlide:
  assumes "slider p \<noteq> None" and "prevBtn p \<noteq> None" and "nextBtn p \<noteq> None"
  shows "showsCurrentSlide rv (final (updateSlider rv p))"
proof -
  let ?q = "final (updateSlider rv p)"
  from assms obtain s b n where el: "slider p = Some s" "prevBtn p = Some b" "nextBtn p = Some n"
    by auto
  have width: "getSlideWidth rv ?q = getSlideWidth rv p"
    using el by (cases rv) (simp_all add: updateSlider_def Let_def getSlideWidth_def
        getDeviceType_def split: list.splits)
  have "\<exists>s. slider ?q = Some s \<and>
      style s ''transform'' =
        ''translateX('' @ show_int (- currentSlide p * getSlideWidth rv p) @ ''px)''"
    using el by (simp add: updateSlider_def Let_def set_style_def)
  moreover have "\<forall>k < length (dots ?q).
      ''active'' \<in> set (classList (dots ?q ! k)) \<longleftrightarrow> int k = currentSlide p"
    using assms(1) by (simp add: updateSlider_active updateSlider_keeps)
  moreover have "buttonsInStep ?q"
    using assms by (rule buttonsInStep_updateSlider)
  ultimately show ?thesis
    by (simp add: showsCurrentSlide_def updateSlider_keeps width)
qed

lemma showsCurrentSlide_cong:
  assumes "currentSlide q = currentSlide p" and "slider q = slider p" and "dots q = dots p"
    and "prevBtn q = prevBtn p" and "nextBtn q = nextBtn p"
    and "testimonialItems q = testimonialItems p"
    and "innerWidth q = innerWidth p" and "CONFIG q = CONFIG p"
  shows "showsCurrentSlide rv q = showsCurrentSlide rv p"
proof -
  have "getDeviceType q = getDeviceType p"
    unfolding getDeviceType_def assms(7,8) by (rule refl)
  then have "responsiveGap rv q = responsiveGap rv p"
    by (cases rv) (simp_all add: assms(7))
  then have "getSlideWidth rv q = getSlideWidth rv p"
    by (simp add: getSlideWidth_def assms(6) split: list.splits)
  then show ?thesis
    by (simp add: showsCurrentSlide_def buttonsInStep_def assms(1-6))
qed

lemma swipe_showsCurrentSlide:
  assumes "isDragging p" and "\<bar>valueOf (dsub (startX p) endX)\<bar> > 50"
    and "slider p \<noteq> None" and "prevBtn p \<noteq> None" and "nextBtn p \<noteq> None"
  shows "returns (slider_touchend rv endX p) \<and>
         showsCurrentSlide rv (final (slider_touchend rv endX p))"
proof -
  define r where
    "r = (if valueOf (dsub (startX p) endX) > 0 then nextSlide rv p else prevSlide rv p)"
  have ret: "returns r"
    using assms(3-5) by (simp add: r_def nextSlide_def prevSlide_def updateSlider_returns)
  have shown: "showsCurrentSlide rv (final r)"
    using assms(3-5)
    by (simp add: r_def nextSlide_def prevSlide_def updateSlider_showsCurrentSlide)
  have "showsCurrentSlide rv (final (slider_touchend rv endX p)) =
        showsCurrentSlide rv (final r)"
    using assms(1,2) ret
    by (intro showsCurrentSlide_cong)
       (simp_all add: slider_touchend_def Let_def final_andThen r_def setTimeout_def)
  moreover have "returns (slider_touchend rv endX p)"
    using assms(1,2) ret by (simp add: slider_touchend_def Let_def returns_andThen r_def)
  ultimately show ?thesis using shown by simp
qed

text \<open>
  Claim C5. A \<^verbatim>\<open>touchend\<close> on the slider during a drag that began at \<open>startX\<close> and ends at
  \<open>endX\<close>, with \<open>n\<close> items and the index at \<open>i\<close>. When \<^verbatim>\<open>startX - endX > 50\<close> the carousel goes
  to the next slide: the index becomes \<open>i + 1\<close>, and 0 after the last slide. When
  \<^verbatim>\<open>endX - startX > 50\<close> it goes to the previous slide: the index becomes \<open>i - 1\<close>, and \<open>n - 1\<close>
  before the first slide. When \<^verbatim>\<open>|startX - endX| \<le> 50\<close> the index stays. The differences are
  those of doubles. After a swipe, on a page with the slider and both buttons, the listener
  returns and the page shows the new slide.
\<close>

theorem touchend_swipe:
  assumes "isDragging p"
  shows "(valueOf (dsub (startX p) endX) > 50 \<longrightarrow>
            currentSlide (final (slider_touchend rv endX p)) =
              (if currentSlide p < int (length (testimonialItems p)) - 1
               then currentSlide p + 1 else 0)) \<and>
         (valueOf (dsub endX (startX p)) > 50 \<longrightarrow>
            currentSlide (final (slider_touchend rv endX p)) =
              (if currentSlide p > 0
               then currentSlide p - 1 else int (length (testimonialItems p)) - 1)) \<and>
         (\<bar>valueOf (dsub (startX p) endX)\<bar> \<le> 50 \<longrightarrow>
            currentSlide (final (slider_touchend rv endX p)) = currentSlide p) \<and>
         (\<bar>valueOf (dsub (startX p) endX)\<bar> > 50 \<and>
          slider p \<noteq> None \<and> prevBtn p \<noteq> None \<and> nextBtn p \<noteq> None \<longrightarrow>
            returns (slider_touchend rv endX p) \<and>
            showsCurrentSlide rv (final (slider_touchend rv endX p)))"
proof -
  have flip: "valueOf (dsub endX (startX p)) = - valueOf (dsub (startX p) endX)"
    by (rule dsub_antisym)
  have index: "(valueOf (dsub (startX p) endX) > 50 \<longrightarrow>
            currentSlide (final (slider_touchend rv endX p)) =
              (if currentSlide p < int (length (testimonialItems p)) - 1
               then currentSlide p + 1 else 0)) \<and>
         (valueOf (dsub endX (startX p)) > 50 \<longrightarrow>
            currentSlide (final (slider_touchend rv endX p)) =
              (if currentSlide p > 0
               then currentSlide p - 1 else int (length (testimonialItems p)) - 1)) \<and>
         (\<bar>valueOf (dsub (startX p) endX)\<bar> \<le> 50 \<longrightarrow>
            currentSlide (final (slider_touchend rv endX p)) = currentSlide p)"
    using assms by (simp add: touchend_index flip nextSlide_index prevSlide_index)
  with swipe_showsCurrentSlide [OF assms, of endX rv] show ?thesis
    by blast
qed

theorem touchend_swipe_witness:
  "isDragging (dragging First) \<and>
   currentSlide (final (slider_touchend First (Double 200 0) (dragging First))) = 1 \<and>
   currentSlide (final (slider_touchend First (Double 400 0) (dragging First))) = 2 \<and>
   currentSlide (final (slider_touchend First (Double 320 0) (dragging First))) = 0 \<and>
   showsCurrentSlide First (final (slider_touchend First (Double 200 0) (dragging First)))"
proof -
  have d: "isDragging (dragging First)"
    and i: "currentSlide (dragging First) = 0"
    and n: "length (testimonialItems (dragging First)) = 3"
    by code_simp+
  have left: "valueOf (dsub (startX (dragging First)) (Double 200 0)) = 100"
    and right: "valueOf (dsub (Double 400 0) (startX (dragging First))) = 100"
    and flip: "valueOf (dsub (startX (dragging First)) (Double 400 0)) = - 100"
    and short: "valueOf (dsub (startX (dragging First)) (Double 320 0)) = - 20"
    by code_simp+
  have "map_option offsetWidth (slider (dragging First)) = Some 350"
    and "map_option offsetWidth (prevBtn (dragging First)) = Some 350"
    and "map_option offsetWidth (nextBtn (dragging First)) = Some 350"
    by code_simp+
  then have present: "slider (dragging First) \<noteq> None" "prevBtn (dragging First) \<noteq> None"
    "nextBtn (dragging First) \<noteq> None"
    by auto
  from touchend_swipe [OF d, of "Double 200 0" First]
    touchend_swipe [OF d, of "Double 400 0" First]
    touchend_swipe [OF d, of "Double 320 0" First] d i n left right flip short present
  show ?thesis by simp
qed

text \<open>
  Where the real difference and the difference of doubles part: from 50 to \<open>-2\<^sup>-\<^sup>6\<^sup>0\<close> the real
  distance exceeds 50, the doubles' difference is 50, and the slide stays.
\<close>

lemma touchend_rounds:
  "valueOf (dsub (Double 50 0) (Double (- 1) (- 60))) = 50 \<and>
   currentSlide (final (slider_touchend First (Double (- 1) (- 60))
                   ((dragging First)\<lparr>startX := Double 50 0\<rparr>))) = 0"
  by code_simp

section \<open>No failure with all elements present\<close>

lemma nextSlide_returns:
  "returns (nextSlide rv p) \<longleftrightarrow>
     slider p \<noteq> None \<and> prevBtn p \<noteq> None \<and> nextBtn p \<noteq> None"
  by (simp add: nextSlide_def updateSlider_returns)

lemma prevSlide_returns:
  "returns (prevSlide rv p) \<longleftrightarrow>
     slider p \<noteq> None \<and> prevBtn p \<noteq> None \<and> nextBtn p \<noteq> None"
  by (simp add: prevSlide_def updateSlider_returns)

lemma goToSlide_returns:
  "returns (goToSlide rv k p) \<longleftrightarrow>
     slider p \<noteq> None \<and> prevBtn p \<noteq> None \<and> nextBtn p \<noteq> None"
  by (simp add: goToSlide_def updateSlider_returns)

text \<open>
  Claim C7. When the slider and the previous and next buttons exist (with them the dots and
  at least one item, which no operation needs in order to return), no operation of the
  carousel throws: \<^verbatim>\<open>updateSlider\<close>, \<^verbatim>\<open>nextSlide\<close>, \<^verbatim>\<open>prevSlide\<close>, \<^verbatim>\<open>goToSlide\<close>, the autoplay
  callback, the debounced resize, and every listener, the touch listeners among them, return.
  \<^verbatim>\<open>getSlideWidth\<close> has a value in every state: 390 without an item.
\<close>

theorem carousel_never_throws:
  assumes "slider p \<noteq> None" and "prevBtn p \<noteq> None" and "nextBtn p \<noteq> None"
  shows "returns (updateSlider rv p) \<and> returns (nextSlide rv p) \<and> returns (prevSlide rv p) \<and>
         returns (goToSlide rv slideIndex p) \<and> returns (autoPlayTick rv p) \<and>
         returns (later rv p) \<and>
         (\<forall>h x f. carouselHandler rv h x = Some f \<longrightarrow> returns (f p))"
proof -
  have ops: "returns (updateSlider rv p)" "returns (nextSlide rv p)" "returns (prevSlide rv p)"
    "returns (goToSlide rv slideIndex p)" "returns (autoPlayTick rv p)"
    using assms
    by (simp_all add: updateSlider_returns nextSlide_returns prevSlide_returns
        goToSlide_returns autoPlayTick_def)
  have lat: "returns (later rv p)"
    using assms by (simp add: later_def updateSlider_returns clearTimer_nodes)
  have "returns (f p)" if "carouselHandler rv h x = Some f" for h x f
  proof (cases h)
    case PrevClick
    with that assms show ?thesis
      by (auto simp add: prevBtn_click_def returns_andThen prevSlide_returns)
  next
    case NextClick
    with that assms show ?thesis
      by (auto simp add: nextBtn_click_def returns_andThen nextSlide_returns)
  next
    case (DotClick index)
    with that assms show ?thesis
      by (auto simp add: dot_click_def returns_andThen goToSlide_returns)
  next
    case SliderTouchEnd
    with that assms show ?thesis
      by (auto simp add: slider_touchend_def Let_def returns_andThen nextSlide_returns
          prevSlide_returns)
  next
    case SliderResize
    with that show ?thesis
      by (auto simp add: slider_resize_def Let_def split: prod.splits)
  qed (use that in \<open>auto simp add: slider_mouseenter_def slider_mouseleave_def
        slider_touchstart_def slider_touchmove_def\<close>)
  with ops lat show ?thesis by blast
qed

theorem carousel_never_throws_witness:
  "returns (updateSlider First (dragging First)) \<and> returns (nextSlide First (dragging First)) \<and>
   returns (prevSlide First (dragging First)) \<and> returns (goToSlide First 1 (dragging First)) \<and>
   returns (autoPlayTick First (dragging First)) \<and> returns (later First (dragging First)) \<and>
   returns (slider_touchstart (Double 10 0) (dragging First)) \<and> returns (slider_touchmove (dragging First)) \<and>
   returns (slider_touchend First (Double 200 0) (dragging First))"
proof -
  have "map_option offsetWidth (slider (dragging First)) = Some 350"
    and "map_option offsetWidth (prevBtn (dragging First)) = Some 350"
    and "map_option offsetWidth (nextBtn (dragging First)) = Some 350"
    by code_simp+
  then have present: "slider (dragging First) \<noteq> None" "prevBtn (dragging First) \<noteq> None"
    "nextBtn (dragging First) \<noteq> None"
    by auto
  have handlers:
    "carouselHandler First SliderTouchStart (Double 10 0) = Some (slider_touchstart (Double 10 0))"
    "carouselHandler First SliderTouchMove (Double 0 0) = Some slider_touchmove"
    "carouselHandler First SliderTouchEnd (Double 200 0) =
       Some (slider_touchend First (Double 200 0))"
    by simp_all
  from carousel_never_throws [OF present, of First 1] handlers show ?thesis
    by blast
qed

section \<open>The slide index stays in range\<close>

lemma indexInRange_nextSlide: "indexInRange p \<Longrightarrow> indexInRange (final (nextSlide rv p))"
  by (auto simp add: indexInRange_def nextSlide_def updateSlider_keeps)

lemma indexInRange_prevSlide: "indexInRange p \<Longrightarrow> indexInRange (final (prevSlide rv p))"
  by (auto simp add: indexInRange_def prevSlide_def updateSlider_keeps)

lemma indexInRange_goToSlide:
  "k < length (testimonialItems p) \<Longrightarrow> indexInRange (final (goToSlide rv (int k) p))"
  by (simp add: indexInRange_def goToSlide_def updateSlider_keeps)

lemma indexInRange_pauseAndResume: "indexInRange (pauseAndResume p) = indexInRange p"
  by (simp add: indexInRange_def pauseAndResume_keeps)

lemma indexInRange_touchend:
  assumes "indexInRange p"
  shows "indexInRange (final (slider_touchend rv x p))"
proof (cases "isDragging p")
  case False
  with assms show ?thesis by (simp add: slider_touchend_def)
next
  case True
  show ?thesis
    using indexInRange_nextSlide [OF assms, of rv] indexInRange_prevSlide [OF assms, of rv] assms
    by (simp add: indexInRange_def touchend_index [OF True] touchend_items nextSlide_keeps
        prevSlide_keeps)
qed

lemma initTestimonialSlider_index:
  assumes "slider p \<noteq> None" and "dots p \<noteq> []"
  shows "currentSlide (final (initTestimonialSlider rv p)) = 0 \<and>
     testimonialItems (final (initTestimonialSlider rv p)) = testimonialItems p \<and>
     length (dots (final (initTestimonialSlider rv p))) = length (dots p)"
proof -
  from assms(1) obtain s where s: "slider p = Some s" by auto
  show ?thesis
  proof (cases "prevBtn p")
    case None
    with s assms(2) show ?thesis
      by (cases rv) (simp_all add: initTestimonialSlider_def Let_def console_log_def)
  next
    case prev: (Some b)
    show ?thesis
    proof (cases "nextBtn p")
      case None
      with s assms(2) prev show ?thesis
        by (cases rv)
           (simp_all add: initTestimonialSlider_def Let_def console_log_def addEventListener_def)
    next
      case (Some n)
      with s assms(2) prev show ?thesis
        by (cases rv)
           (simp_all add: initTestimonialSlider_def Let_def console_log_keeps
              addEventListener_keeps registerSliderListeners_keeps final_andThen
              updateSlider_keeps startAutoPlay_keeps)
    qed
  qed
qed

text \<open>
  Claim C9. When there are as many dots as testimonial items, \<open>n \<ge> 1\<close> of them, the slide
  index satisfies \<open>0 \<le> currentSlide < n\<close> in the state that \<^verbatim>\<open>initTestimonialSlider\<close> sets up, and
  \<^verbatim>\<open>nextSlide\<close>, \<^verbatim>\<open>prevSlide\<close>, the autoplay callback, a touch swipe, and \<^verbatim>\<open>goToSlide\<close> called for
  any dot (directly or by the dot's click listener) keep it so.
\<close>

theorem index_stays_in_range:
  assumes "length (dots p) = length (testimonialItems p)" and "testimonialItems p \<noteq> []"
  shows "(slider p \<noteq> None \<longrightarrow> indexInRange (final (initTestimonialSlider rv p))) \<and>
         (indexInRange p \<longrightarrow>
            indexInRange (final (nextSlide rv p)) \<and>
            indexInRange (final (prevSlide rv p)) \<and>
            indexInRange (final (autoPlayTick rv p)) \<and>
            (\<forall>x. indexInRange (final (slider_touchend rv x p))) \<and>
            (\<forall>index < length (dots p).
                indexInRange (final (goToSlide rv (int index) p)) \<and>
                indexInRange (final (dot_click rv index p))))"
proof -
  from assms have dots: "dots p \<noteq> []" by auto
  have init: "indexInRange (final (initTestimonialSlider rv p))" if "slider p \<noteq> None"
    using assms(2) initTestimonialSlider_index [OF that dots, of rv]
    by (simp add: indexInRange_def)
  have go: "indexInRange (final (goToSlide rv (int index) p))" if "index < length (dots p)"
    for index
    using that assms(1) by (simp add: indexInRange_goToSlide)
  have dot: "indexInRange (final (dot_click rv index p))" if "index < length (dots p)"
    for index
    using go [OF that]
    by (simp add: dot_click_def final_andThen indexInRange_pauseAndResume)
  have tick: "indexInRange (final (autoPlayTick rv p))" if "indexInRange p"
    using that by (simp add: autoPlayTick_def indexInRange_nextSlide)
  from init go dot tick show ?thesis
    by (simp add: indexInRange_nextSlide indexInRange_prevSlide indexInRange_touchend)
qed

theorem index_stays_in_range_witness:
  "indexInRange (final (initTestimonialSlider First (threeSlides First))) \<and>
   indexInRange (lastSlide First) \<and>
   indexInRange (final (nextSlide First (lastSlide First))) \<and>
   indexInRange (final (prevSlide First (lastSlide First))) \<and>
   indexInRange (final (autoPlayTick First (lastSlide First))) \<and>
   indexInRange (final (slider_touchend First (Double 200 0) (lastSlide First))) \<and>
   indexInRange (final (goToSlide First (int 2) (lastSlide First))) \<and>
   indexInRange (final (dot_click First 2 (lastSlide First)))"
proof -
  have loaded: "length (dots (threeSlides First)) = length (testimonialItems (threeSlides First))"
    "length (testimonialItems (threeSlides First)) = 3"
    "map_option offsetWidth (slider (threeSlides First)) = Some 350"
    by code_simp+
  then have loaded': "testimonialItems (threeSlides First) \<noteq> []"
    "slider (threeSlides First) \<noteq> None"
    by auto
  have last: "length (dots (lastSlide First)) = length (testimonialItems (lastSlide First))"
    "length (testimonialItems (lastSlide First)) = 3" "length (dots (lastSlide First)) = 3"
    "indexInRange (lastSlide First)"
    by code_simp+
  then have last': "testimonialItems (lastSlide First) \<noteq> []"
    by auto
  from index_stays_in_range [OF last(1) last', of First] last(3,4)
  have "\<forall>index<3. indexInRange (final (goToSlide First (int index) (lastSlide First))) \<and>
                    indexInRange (final (dot_click First index (lastSlide First)))"
    by simp
  from this [rule_format, of 2]
  have "indexInRange (final (goToSlide First (int 2) (lastSlide First))) \<and>
        indexInRange (final (dot_click First 2 (lastSlide First)))"
    by simp
  with index_stays_in_range [OF loaded(1) loaded'(1), of First]
    index_stays_in_range [OF last(1) last', of First] loaded'(2) last(4)
  show ?thesis by simp
qed

section \<open>Missing elements\<close>

text \<open>
  Without the slider or without dots \<^verbatim>\<open>initTestimonialSlider\<close> returns at once, and the click
  listener of a navigation link does nothing when no element matches its \<^verbatim>\<open>href\<close>.
\<close>

lemma initTestimonialSlider_without_slider:
  assumes "slider p = None \<or> dots p = []"
  shows "initTestimonialSlider First p =
           Returned (console_log ''Initializing testimonial slider...'' p)"
    and "initTestimonialSlider Second p = Returned p"
  using assms by (auto simp add: initTestimonialSlider_def console_log_def)

lemma smoothScroll_click_without_target:
  "querySelector (scenery p) targetId = Absent \<Longrightarrow> smoothScroll_click targetId p = Returned p"
  by (simp add: smoothScroll_click_def)

text \<open>
  It throws when the link's \<^verbatim>\<open>href\<close> is not a valid selector, as \<^verbatim>\<open>#\<close> is: the exception of
  \<^verbatim>\<open>document.querySelector\<close> leaves the listener.
\<close>

lemma smoothScroll_click_invalid_selector:
  "querySelector (scenery p) targetId = Invalid \<Longrightarrow>
   smoothScroll_click targetId p = Threw (SyntaxError targetId) p"
  by (simp add: smoothScroll_click_def)

lemma smoothScroll_click_hash:
  "thrown (listenerBody First (NavLinkT 0) (Pointer aClick) SmoothScrollClick
     (updScenery (\<lambda>s. s\<lparr>navLinks := [''#'']\<rparr>) (loaded First))) = Some (SyntaxError ''#'')"
  by code_simp

text \<open>
  Claim C2 says that no initializer and no listener throws when an element is missing, and
  names \<^verbatim>\<open>prevBtn\<close> and \<^verbatim>\<open>nextBtn\<close>. On a page with a slider and dots and without \<^verbatim>\<open>#prevBtn\<close>,
  \<^verbatim>\<open>initTestimonialSlider\<close> throws a \<^verbatim>\<open>TypeError\<close> at \<^verbatim>\<open>prevBtn.addEventListener\<close>. Without
  \<^verbatim>\<open>#nextBtn\<close> it throws at \<^verbatim>\<open>nextBtn.addEventListener\<close>, after it has registered the click
  listener of the previous button; a click on that button then throws in \<^verbatim>\<open>updateSlider\<close>, at
  \<^verbatim>\<open>nextBtn.disabled\<close>.
\<close>

theorem missing_button_throws:
  "thrown (initTestimonialSlider First (noPrevButton First)) =
     Some (TypeError ''prevBtn is null'') \<and>
   thrown (initTestimonialSlider Second (noPrevButton Second)) =
     Some (TypeError ''prevBtn is null'') \<and>
   thrown (initTestimonialSlider First (noNextButton First)) =
     Some (TypeError ''nextBtn is null'') \<and>
   listeners (final (initTestimonialSlider First (noNextButton First))) =
     [(PrevBtnT, ''click'', PrevClick)] \<and>
   thrown (prevBtn_click First (final (initTestimonialSlider First (noNextButton First)))) =
     Some (TypeError ''nextBtn is null'')"
  by code_simp

text \<open>
  The second revision's \<^verbatim>\<open>initMobileMenu\<close> has the same defect: on a phone, without a \<^verbatim>\<open>nav\<close>
  element, \<^verbatim>\<open>nav.appendChild\<close> throws.
\<close>

lemma initMobileMenu_throws_without_nav:
  "thrown (initMobileMenu Second phoneWithoutNav) = Some (TypeError ''nav is null'')"
  by code_simp

section \<open>Pause on hover\<close>

text \<open>
  Claim C4 says that no autoplay advance happens between a \<^verbatim>\<open>mouseenter\<close> and the next
  \<^verbatim>\<open>mouseleave\<close>. After a click on the next button the pointer enters the slider and stays;
  the click's ten-second timeout calls \<^verbatim>\<open>startAutoPlay\<close>, and the interval it starts (handle 3)
  is active while the pointer is still over the slider; when it fires, the carousel moves
  from slide 1 to slide 2.
\<close>

theorem autoplay_advances_while_hovered:
  "isPlaying (hoveredAfterClick First) \<and>
   map fst (intervals (hoveredAfterClick First)) = [3] \<and>
   currentSlide (hoveredAfterClick First) = 1 \<and>
   currentSlide (fire First (IntervalFires 3) (hoveredAfterClick First)) = 2"
  by code_simp

text \<open>
  What the two hover listeners do: \<^verbatim>\<open>mouseenter\<close> cancels the interval whose handle
  \<open>autoPlayInterval\<close> holds, and no other; \<^verbatim>\<open>mouseleave\<close> starts an interval;
  \<^verbatim>\<open>startAutoPlay\<close> leaves the intervals that are already active running.
\<close>

lemma mouseenter_stops_current_interval:
  assumes "isPlaying p" and "autoPlayInterval p = Some h"
  shows "h \<notin> fst ` set (intervals (final (slider_mouseenter p)))"
  using assms by (auto simp add: slider_mouseenter_def stopAutoPlay_def clearTimer_def)

lemma mouseleave_starts_interval:
  assumes "isPlaying p"
  shows "\<exists>h. autoPlayInterval (final (slider_mouseleave p)) = Some h \<and>
             h \<in> fst ` set (intervals (final (slider_mouseleave p)))"
  using assms by (simp add: slider_mouseleave_def startAutoPlay_def setInterval_def Let_def)

lemma mouseenter_silences_single_interval:
  assumes "isPlaying p" and "autoPlayInterval p = Some h"
    and "fst ` set (intervals p) \<subseteq> {h}"
  shows "intervals (final (slider_mouseenter p)) = []"
proof -
  from assms(3) have "filter (\<lambda>t. fst t \<noteq> h) (intervals p) = []"
    by (auto simp add: filter_empty_conv)
  with assms(1,2) show ?thesis
    by (simp add: slider_mouseenter_def stopAutoPlay_def clearTimer_def)
qed

lemma mouseenter_keeps_other_intervals:
  assumes "autoPlayInterval p = Some h" and "(k, delay) \<in> set (intervals p)" and "k \<noteq> h"
  shows "(k, delay) \<in> set (intervals (final (slider_mouseenter p)))"
  using assms by (auto simp add: slider_mouseenter_def stopAutoPlay_def clearTimer_def)

lemma startAutoPlay_keeps_intervals:
  "set (intervals p) \<subseteq> set (intervals (startAutoPlay p))"
  by (auto simp add: startAutoPlay_def setInterval_def Let_def)

section \<open>The top-level try and catch\<close>

text \<open>
  Claim C3. When one of the initializers called in \<^verbatim>\<open>initCoffeeWebsite\<close> throws an error (those
  before it having returned), the \<^verbatim>\<open>catch\<close> block logs that error with \<^verbatim>\<open>console.error\<close>, and
  \<^verbatim>\<open>initCoffeeWebsite\<close> returns: the error does not reach its caller.
\<close>

theorem initCoffeeWebsite_catches:
  assumes "initializers rv = before @ f # after"
    and "inSequence before (console_log ''Initializing Coffee Website...'' p) = Returned p1"
    and "f p1 = Threw e p2"
  shows "initCoffeeWebsite rv p =
           Returned (console_error ''Error initializing Coffee Website:'' e p2) \<and>
         returns (initCoffeeWebsite rv p) \<and>
         last (console (final (initCoffeeWebsite rv p))) =
           Error ''Error initializing Coffee Website:'' e"
proof -
  have "inSequence (initializers rv) (console_log ''Initializing Coffee Website...'' p) =
        Threw e p2"
    using assms by (simp add: inSequence_append)
  then have "initCoffeeWebsite rv p =
      Returned (console_error ''Error initializing Coffee Website:'' e p2)"
    by (simp add: initCoffeeWebsite_def)
  then show ?thesis by (simp add: console_error_def)
qed

theorem initCoffeeWebsite_catches_witness:
  "initCoffeeWebsite First (noPrevButton First) =
     Returned (console_error ''Error initializing Coffee Website:'' (TypeError ''prevBtn is null'')
       (final (initTestimonialSlider First
         (final (inSequence
            [initSmoothScrolling First, initScrollAnimations First, initHoverAnimations First]
            (console_log ''Initializing Coffee Website...'' (noPrevButton First))))))) \<and>
   returns (initCoffeeWebsite First (noPrevButton First)) \<and>
   last (console (final (initCoffeeWebsite First (noPrevButton First)))) =
     Error ''Error initializing Coffee Website:'' (TypeError ''prevBtn is null'')"
proof -
  let ?p0 = "console_log ''Initializing Coffee Website...'' (noPrevButton First)"
  let ?before =
    "[initSmoothScrolling First, initScrollAnimations First, initHoverAnimations First]"
  let ?after =
    "[initLoadingAnimation First, initMobileMenu First, initFormValidation First,
      initBackToTop First, initBusinessHours First, initNewsletterSignup First]"
  let ?p1 = "final (inSequence ?before ?p0)"
  have h1: "initializers First = ?before @ initTestimonialSlider First # ?after"
    by simp
  have "returns (inSequence ?before ?p0)"
    by code_simp
  then have h2: "inSequence ?before ?p0 = Returned ?p1"
    by (rule Returned_final)
  have "thrown (initTestimonialSlider First ?p1) = Some (TypeError ''prevBtn is null'')"
    by code_simp
  then have h3: "initTestimonialSlider First ?p1 =
      Threw (TypeError ''prevBtn is null'') (final (initTestimonialSlider First ?p1))"
    by (rule Threw_final)
  from initCoffeeWebsite_catches [OF h1 h2 h3] show ?thesis .
qed

text \<open>Whatever the initializers do, \<^verbatim>\<open>initCoffeeWebsite\<close> returns.\<close>

lemma initCoffeeWebsite_returns: "returns (initCoffeeWebsite rv p)"
  by (simp add: initCoffeeWebsite_def split: outcome.splits)

section \<open>What no operation writes\<close>

lemma beyondCss_writes:
  "beyondCss (set_style property v el) = beyondCss el"
  "beyondCss (classList_toggle token force el) = beyondCss el"
  "beyondCss (classList_add token el) = beyondCss el"
  "beyondCss (cssText declarations el) = beyondCss el"
  by (simp_all add: beyondCss_def set_style_def classList_toggle_def classList_add_def
      cssText_def)

lemma readOnly_window:
  "readOnlyPart (console_log m p) = readOnlyPart p"
  "readOnlyPart (console_error m e p) = readOnlyPart p"
  "readOnlyPart (addEventListener t ty h p) = readOnlyPart p"
  "readOnlyPart (clearTimer handle p) = readOnlyPart p"
  "readOnlyPart (snd (setTimeout f delay p)) = readOnlyPart p"
  "readOnlyPart (snd (setInterval delay p)) = readOnlyPart p"
  by (simp_all add: readOnlyPart_def carouselBeyondCss_def console_log_def console_error_def addEventListener_def
      clearTimer_def setTimeout_def setInterval_def Let_def split: option.splits)

lemma readOnly_closure:
  "readOnlyPart (p\<lparr>currentSlide := i\<rparr>) = readOnlyPart p"
  "readOnlyPart (p\<lparr>isPlaying := b\<rparr>) = readOnlyPart p"
  "readOnlyPart (p\<lparr>autoPlayInterval := h\<rparr>) = readOnlyPart p"
  "readOnlyPart (p\<lparr>startX := x\<rparr>) = readOnlyPart p"
  "readOnlyPart (p\<lparr>isDragging := b\<rparr>) = readOnlyPart p"
  "readOnlyPart (p\<lparr>resizeTimeout := h\<rparr>) = readOnlyPart p"
  "readOnlyPart (p\<lparr>innerWidth := w\<rparr>) = readOnlyPart p"
  "readOnlyPart (p\<lparr>timeouts := ts\<rparr>) = readOnlyPart p"
  by (simp_all add: readOnlyPart_def carouselBeyondCss_def)

lemma readOnly_autoplay:
  "readOnlyPart (startAutoPlay p) = readOnlyPart p"
  "readOnlyPart (stopAutoPlay p) = readOnlyPart p"
  "readOnlyPart (pauseAndResume p) = readOnlyPart p"
  by (simp_all add: startAutoPlay_def stopAutoPlay_def pauseAndResume_def readOnly_window
      readOnly_closure split: prod.splits)
     (metis readOnly_window(6) snd_conv)

lemma map_beyondCss_toggle:
  "map (beyondCss \<circ> (\<lambda>(index, dot). classList_toggle token (P index) dot)) (enumerate n ds) =
   map beyondCss ds"
  by (induction ds arbitrary: n) (simp_all add: beyondCss_writes)

lemma readOnly_updateSlider: "readOnlyPart (final (updateSlider rv p)) = readOnlyPart p"
  by (simp add: updateSlider_def Let_def readOnlyPart_def carouselBeyondCss_def beyondCss_writes map_beyondCss_toggle
      split: option.splits)

lemma readOnly_slides:
  "readOnlyPart (final (nextSlide rv p)) = readOnlyPart p"
  "readOnlyPart (final (prevSlide rv p)) = readOnlyPart p"
  "readOnlyPart (final (goToSlide rv i p)) = readOnlyPart p"
  by (simp_all add: nextSlide_def prevSlide_def goToSlide_def readOnly_updateSlider
      readOnly_closure)

lemma readOnly_handlers:
  "readOnlyPart (final (prevBtn_click rv p)) = readOnlyPart p"
  "readOnlyPart (final (nextBtn_click rv p)) = readOnlyPart p"
  "readOnlyPart (final (dot_click rv index p)) = readOnlyPart p"
  "readOnlyPart (final (slider_mouseenter p)) = readOnlyPart p"
  "readOnlyPart (final (slider_mouseleave p)) = readOnlyPart p"
  "readOnlyPart (final (slider_touchstart x p)) = readOnlyPart p"
  "readOnlyPart (final (slider_touchmove p)) = readOnlyPart p"
  "readOnlyPart (final (slider_touchend rv x p)) = readOnlyPart p"
  "readOnlyPart (final (autoPlayTick rv p)) = readOnlyPart p"
  "readOnlyPart (final (later rv p)) = readOnlyPart p"
  by (simp_all add: prevBtn_click_def nextBtn_click_def dot_click_def slider_mouseenter_def
      slider_mouseleave_def slider_touchstart_def slider_touchmove_def slider_touchend_def
      autoPlayTick_def later_def Let_def final_andThen readOnly_slides readOnly_autoplay
      readOnly_window readOnly_closure readOnly_updateSlider)

lemma readOnly_slider_resize: "readOnlyPart (final (slider_resize p)) = readOnlyPart p"
proof -
  obtain h q where hq: "setTimeout DebouncedUpdateSlider 250 (clearTimer (resizeTimeout p) p) = (h, q)"
    by (cases "setTimeout DebouncedUpdateSlider 250 (clearTimer (resizeTimeout p) p)")
  then have "readOnlyPart q = readOnlyPart p"
    using readOnly_window(5) [of DebouncedUpdateSlider 250 "clearTimer (resizeTimeout p) p"]
    by (simp add: readOnly_window)
  with hq show ?thesis
    by (simp add: slider_resize_def Let_def readOnly_closure)
qed

lemma readOnly_updScenery:
  "sceneryBeyondCss (f (scenery p)) = sceneryBeyondCss (scenery p) \<Longrightarrow>
   readOnlyPart (updScenery f p) = readOnlyPart p"
  by (simp add: readOnlyPart_def carouselBeyondCss_def updScenery_def)

lemma readOnly_foldl_addEventListener:
  "readOnlyPart (foldl (\<lambda>q i. addEventListener (t i) ty (h i) q) p xs) = readOnlyPart p"
  by (induction xs arbitrary: p) (simp_all add: readOnly_window)

lemma readOnly_registerSliderListeners:
  "readOnlyPart (registerSliderListeners p) = readOnlyPart p"
  by (simp add: registerSliderListeners_def Let_def readOnly_foldl_addEventListener
      readOnly_window readOnly_closure)

lemma readOnly_initTestimonialSlider:
  "readOnlyPart (final (initTestimonialSlider rv p)) = readOnlyPart p"
proof -
  have "readOnlyPart (final (initTestimonialSlider rv p)) = readOnlyPart p"
    if "nextBtn p = n" "prevBtn p = b" for n b
    using that
    by (cases rv; cases n; cases b)
       (simp_all add: initTestimonialSlider_def Let_def final_andThen console_log_keeps
          addEventListener_keeps readOnly_window readOnly_closure readOnly_autoplay
          readOnly_updateSlider readOnly_registerSliderListeners)
  then show ?thesis by simp
qed

lemma readOnly_initSmoothScrolling:
  "readOnlyPart (final (initSmoothScrolling rv p)) = readOnlyPart p"
  by (cases rv) (simp_all add: initSmoothScrolling_def Let_def readOnly_foldl_addEventListener
      readOnly_window)

lemma readOnly_initHoverAnimations:
  "readOnlyPart (final (initHoverAnimations rv p)) = readOnlyPart p"
  by (cases rv) (simp_all add: initHoverAnimations_def Let_def readOnly_foldl_addEventListener
      readOnly_window)

lemma readOnly_initScrollAnimations:
  "readOnlyPart (final (initScrollAnimations rv p)) = readOnlyPart p"
  by (cases rv)
     (simp_all add: initScrollAnimations_def Let_def readOnly_window readOnly_updScenery
        sceneryBeyondCss_def beyondCss_writes comp_def)

lemma readOnly_initLoadingAnimation:
  "readOnlyPart (final (initLoadingAnimation rv p)) = readOnlyPart p"
  by (cases rv)
     (simp_all add: initLoadingAnimation_def Let_def readOnly_window readOnly_updScenery
        sceneryBeyondCss_def beyondCss_writes split: option.splits)

lemma readOnly_showMobileMenu: "readOnlyPart (final (showMobileMenu p)) = readOnlyPart p"
  by (simp add: showMobileMenu_def Let_def readOnlyPart_def carouselBeyondCss_def sceneryBeyondCss_def
      beyondCss_writes updScenery_def split: option.splits)

lemma readOnly_initMobileMenu: "readOnlyPart (final (initMobileMenu rv p)) = readOnlyPart p"
  by (cases rv)
     (simp_all add: readOnly_window readOnly_showMobileMenu readOnly_updScenery
        sceneryBeyondCss_def split: option.splits)

lemma readOnly_handleResponsiveLayout:
  "readOnlyPart (final (handleResponsiveLayout p)) = readOnlyPart p"
proof -
  let ?p1 = "p\<lparr>testimonialItems :=
      map (\<lambda>item. set_style ''flex'' (''0 0 '' @ itemBasis (getDeviceType p))
                    (set_style ''minWidth'' (itemBasis (getDeviceType p)) item))
          (testimonialItems p)\<rparr>"
  have "readOnlyPart ?p1 = readOnlyPart p"
    by (simp add: readOnlyPart_def carouselBeyondCss_def beyondCss_writes comp_def)
  then show ?thesis
    by (simp add: handleResponsiveLayout_def Let_def readOnly_updScenery sceneryBeyondCss_def
        beyondCss_writes split: option.splits)
qed

lemma readOnly_placeholders:
  "readOnlyPart (final (initFormValidation rv p)) = readOnlyPart p"
  "readOnlyPart (final (initBackToTop rv p)) = readOnlyPart p"
  "readOnlyPart (final (initBusinessHours rv p)) = readOnlyPart p"
  "readOnlyPart (final (initNewsletterSignup rv p)) = readOnlyPart p"
  by (cases rv; simp add: readOnly_window)+

lemma readOnly_inSequence:
  "(\<And>f q. f \<in> set fs \<Longrightarrow> readOnlyPart (final (f q)) = readOnlyPart q) \<Longrightarrow>
   readOnlyPart (final (inSequence fs p)) = readOnlyPart p"
  by (induction fs arbitrary: p) (simp_all add: final_andThen)

lemma readOnly_initializers:
  "f \<in> set (initializers rv) \<Longrightarrow> readOnlyPart (final (f q)) = readOnlyPart q"
  by (cases rv)
     (auto simp del: initMobileMenu.simps initFormValidation.simps initBackToTop.simps
        initBusinessHours.simps initNewsletterSignup.simps
        simp add: readOnly_initSmoothScrolling readOnly_initScrollAnimations
        readOnly_initHoverAnimations readOnly_initTestimonialSlider
        readOnly_initLoadingAnimation readOnly_initMobileMenu readOnly_placeholders
        readOnly_handleResponsiveLayout)

lemma readOnly_initCoffeeWebsite:
  "readOnlyPart (final (initCoffeeWebsite rv p)) = readOnlyPart p"
proof -
  let ?r = "inSequence (initializers rv) (console_log ''Initializing Coffee Website...'' p)"
  have "readOnlyPart (final ?r) = readOnlyPart p"
    by (simp add: readOnly_inSequence readOnly_initializers readOnly_window)
  then show ?thesis
    by (cases ?r) (simp_all add: initCoffeeWebsite_def readOnly_window)
qed

lemma readOnly_scrollToTop: "readOnlyPart (scrollToTop p) = readOnlyPart p"
  by (simp add: scrollToTop_def readOnly_updScenery sceneryBeyondCss_def)

lemma beyondCss_foldl_reveal:
  "map beyondCss (foldl (\<lambda>secs entry. reveal entry secs) secs entries) = map beyondCss secs"
  by (induction entries arbitrary: secs)
     (simp_all add: reveal_def map_update beyondCss_writes list_update_same_conv)

lemma readOnly_others:
  "readOnlyPart (final (smoothScroll_click targetId p)) = readOnlyPart p"
  "readOnlyPart (final (observerCallback entries p)) = readOnlyPart p"
  "readOnlyPart (final (window_beforeunload p)) = readOnlyPart p"
  "readOnlyPart (final (window_load p)) = readOnlyPart p"
  "readOnlyPart (final (hamburger_click p)) = readOnlyPart p"
  "readOnlyPart (final (document_visibilitychange hidden p)) = readOnlyPart p"
  "readOnlyPart (final (document_DOMContentLoaded rv p)) = readOnlyPart p"
  by (simp_all add: smoothScroll_click_def observerCallback_def window_beforeunload_def
      window_load_def hamburger_click_def document_visibilitychange_def
      document_DOMContentLoaded_def readOnly_updScenery sceneryBeyondCss_def
      beyondCss_writes beyondCss_foldl_reveal readOnly_scrollToTop readOnly_window
      readOnly_initCoffeeWebsite split: option.splits selection.splits)

lemma readOnly_ripples:
  "readOnlyPart (final (ripple_click this e p)) = readOnlyPart p"
  "readOnlyPart (removeRipple k p) = readOnlyPart p"
  by (simp_all add: ripple_click_def removeRipple_def Let_def readOnly_window
      readOnly_updScenery sceneryBeyondCss_def)

lemma readOnly_listenerBody:
  "readOnlyPart (final (listenerBody rv this d h p)) = readOnlyPart p"
proof (cases "carouselHandler rv h (touchOf d)")
  case None
  then show ?thesis
    by (cases h)
       (simp_all add: listenerBody_def readOnly_others readOnly_ripples
          split: detail.splits target.splits)
next
  case (Some f)
  then have "readOnlyPart (final (f p)) = readOnlyPart p"
    by (cases h) (auto simp add: readOnly_handlers readOnly_slider_resize)
  with Some show ?thesis
    by (cases h) (simp_all add: listenerBody_def)
qed

lemma readOnly_invoke: "readOnlyPart (invoke rv this d p h) = readOnlyPart p"
  by (simp add: invoke_def readOnly_listenerBody)

lemma readOnly_foldl_invoke: "readOnlyPart (foldl (invoke rv this d) p hs) = readOnlyPart p"
  by (induction hs arbitrary: p) (simp_all add: readOnly_invoke)

lemma readOnly_dispatch: "readOnlyPart (dispatch rv t ty d p) = readOnlyPart p"
  by (simp add: dispatch_def readOnly_foldl_invoke)

lemma readOnly_finishLoading: "readOnlyPart (finishLoading p) = readOnlyPart p"
  by (simp add: finishLoading_def readOnly_updScenery sceneryBeyondCss_def beyondCss_writes)

lemma readOnly_runTask: "readOnlyPart (runTask rv f p) = readOnlyPart p"
  by (cases f)
     (simp_all add: readOnly_autoplay readOnly_handlers readOnly_finishLoading
        readOnly_ripples)

lemma readOnly_fire: "readOnlyPart (fire rv e p) = readOnlyPart p"
  by (cases e)
     (simp_all add: readOnly_dispatch readOnly_closure readOnly_handlers readOnly_runTask
        split: option.splits)

lemma readOnly_window_resized: "readOnlyPart (final (window_resized rv p)) = readOnlyPart p"
  by (cases rv)
     (simp_all del: initMobileMenu.simps
        add: Let_def final_andThen readOnly_window readOnly_handleResponsiveLayout
        readOnly_initMobileMenu)

text \<open>
  The nodes that scripts add to the tree. A click that reaches a button with the ripple
  listener appends one \<^verbatim>\<open>span\<close> to that button; the span's timeout removes that span and no
  other.
\<close>

lemma ripple_click_appends:
  "\<exists>ripple. ripples (scenery (final (ripple_click this e p))) =
     ripples (scenery p) @ [(rippleCount (scenery p) + 1, this, ripple)] \<and>
     spanClassList ripple = [''ripple''] \<and>
     spanWidth ripple = dmax (rectWidth e) (rectHeight e) \<and>
     spanHeight ripple = dmax (rectWidth e) (rectHeight e) \<and>
     timeouts (final (ripple_click this e p)) =
       timeouts p @ [(timerCount p + 1, RemoveRipple (rippleCount (scenery p) + 1), 600)]"
  by (simp add: ripple_click_def Let_def updScenery_def setTimeout_def)

lemma removeRipple_removes:
  "ripples (scenery (removeRipple k p)) = filter (\<lambda>r. fst r \<noteq> k) (ripples (scenery p))"
  by (simp add: removeRipple_def updScenery_def)

lemma click_leaves_ripple:
  "map (\<lambda>r. (fst r, fst (snd r))) (ripples (scenery (fire First (Click NextBtnT aClick) (loaded First)))) =
     [(1, NextBtnT)] \<and>
   ripples (scenery (run First [Click NextBtnT aClick, TimeoutFires 2] (loaded First))) = []"
  by code_simp

text \<open>
  Claim C6 says that every operation writes only the variables of the carousel's closure and
  the CSS classes and inline styles of nodes. The initialization of the page is a
  counterexample: \<^verbatim>\<open>updateSlider\<close> assigns the \<^verbatim>\<open>disabled\<close> property of the previous button,
  which is neither.
\<close>

theorem updateSlider_writes_disabled:
  "outsideClosureAndCss (perform First DOMContentLoaded (threeSlides First)) \<noteq>
   outsideClosureAndCss (threeSlides First)"
proof -
  have "map_option disabled (prevBtn (perform First DOMContentLoaded (threeSlides First))) =
        Some True"
    by code_simp
  moreover have "map_option disabled (prevBtn (threeSlides First)) = Some False"
    by code_simp
  ultimately show ?thesis
    by (auto simp add: outsideClosureAndCss_def beyondCss_def)
qed

text \<open>
  Claim C6, amended. Every operation (the initialization, every event with all the listeners
  registered for it, every timeout and interval, the callbacks of the other features) leaves
  \<^verbatim>\<open>CONFIG\<close> and \<^verbatim>\<open>VALIDATION\<close> as they are. Besides the variables of the carousel's closure,
  the CSS classes and inline styles of nodes and the browser's own bookkeeping, it changes
  only the \<^verbatim>\<open>disabled\<close> property of the previous and the next button and the nodes that
  scripts add to the tree: the ripple spans, appended to a clicked button and removed 600 ms
  later, and the hamburger button of the second revision.
\<close>

theorem configuration_never_written:
  "readOnlyPart (perform rv operation p) = readOnlyPart p \<and>
   CONFIG (perform rv operation p) = CONFIG p \<and>
   VALIDATION (perform rv operation p) = VALIDATION p"
proof -
  have "readOnlyPart (perform rv operation p) = readOnlyPart p"
    by (cases operation)
       (simp_all add: readOnly_others readOnly_fire readOnly_window_resized)
  then show ?thesis by (simp add: readOnlyPart_def carouselBeyondCss_def)
qed

theorem configuration_never_written_witness:
  "CONFIG (loaded First) = CONFIG_of First \<and>
   VALIDATION (perform First (Event (Click NextBtnT aClick)) (loaded First)) = VALIDATION_0"
proof -
  have "CONFIG (threeSlides First) = CONFIG_of First"
    and "VALIDATION (threeSlides First) = VALIDATION_0"
    by (simp_all add: threeSlides_def)
  with configuration_never_written [of First DOMContentLoaded "threeSlides First"]
  have "CONFIG (loaded First) = CONFIG_of First" and "VALIDATION (loaded First) = VALIDATION_0"
    by (simp_all add: loaded_def)
  with configuration_never_written [of First "Event (Click NextBtnT aClick)" "loaded First"]
  show ?thesis by simp
qed

section \<open>The carousel along every run\<close>

lemma shape_of_readOnly:
  assumes "readOnlyPart q = readOnlyPart p"
  shows "length (dots q) = length (dots p)"
    and "length (testimonialItems q) = length (testimonialItems p)"
    and "(slider q = None) = (slider p = None)"
    and "(prevBtn q = None) = (prevBtn p = None)"
    and "(nextBtn q = None) = (nextBtn p = None)"
proof -
  from assms have d: "map beyondCss (dots q) = map beyondCss (dots p)"
    and t: "map beyondCss (testimonialItems q) = map beyondCss (testimonialItems p)"
    and s: "map_option beyondCss (slider q) = map_option beyondCss (slider p)"
    and b: "map_option offsetWidth (prevBtn q) = map_option offsetWidth (prevBtn p)"
    and n: "map_option offsetWidth (nextBtn q) = map_option offsetWidth (nextBtn p)"
    by (simp_all add: readOnlyPart_def carouselBeyondCss_def)
  from d show "length (dots q) = length (dots p)" by (rule map_eq_imp_length_eq)
  from t show "length (testimonialItems q) = length (testimonialItems p)"
    by (rule map_eq_imp_length_eq)
  from s show "(slider q = None) = (slider p = None)" by (metis option.map_disc_iff)
  from b show "(prevBtn q = None) = (prevBtn p = None)" by (metis option.map_disc_iff)
  from n show "(nextBtn q = None) = (nextBtn p = None)" by (metis option.map_disc_iff)
qed

subsection \<open>Steps beside the carousel\<close>

lemma besideCarousel_refl: "besideCarousel p p"
  by (simp add: besideCarousel_def)

lemma besideCarousel_trans:
  assumes "besideCarousel p q" and "besideCarousel q r"
  shows "besideCarousel p r"
proof -
  from assms(1) obtain extra where 1: "listeners q = listeners p @ extra"
    "set extra \<subseteq> {(HamburgerT, ''click'', HamburgerClick), (WindowT, ''load'', Load),
                   (WindowT, ''beforeunload'', BeforeUnload)}"
    unfolding besideCarousel_def by blast
  from assms(2) obtain more where 2: "listeners r = listeners q @ more"
    "set more \<subseteq> {(HamburgerT, ''click'', HamburgerClick), (WindowT, ''load'', Load),
                  (WindowT, ''beforeunload'', BeforeUnload)}"
    unfolding besideCarousel_def by blast
  from 1 2 have "listeners r = listeners p @ (extra @ more)"
    and "set (extra @ more) \<subseteq> {(HamburgerT, ''click'', HamburgerClick), (WindowT, ''load'', Load),
                  (WindowT, ''beforeunload'', BeforeUnload)}"
    by simp_all
  then have "\<exists>extra. listeners r = listeners p @ extra \<and>
      set extra \<subseteq> {(HamburgerT, ''click'', HamburgerClick), (WindowT, ''load'', Load),
                    (WindowT, ''beforeunload'', BeforeUnload)}"
    by blast
  with assms show ?thesis
    unfolding besideCarousel_def by simp
qed

lemma besideCarousel_same:
  assumes "currentSlide q = currentSlide p" and "slider q = slider p"
    and "prevBtn q = prevBtn p" and "nextBtn q = nextBtn p" and "dots q = dots p"
    and "testimonialItems q = testimonialItems p" and "listeners q = listeners p"
  shows "besideCarousel p q"
  using assms by (simp add: besideCarousel_def)

lemma beside_window:
  "besideCarousel p (console_log m p)"
  "besideCarousel p (console_error m e p)"
  "besideCarousel p (clearTimer h p)"
  "besideCarousel p (snd (setTimeout f delay p))"
  "besideCarousel p (startAutoPlay p)"
  "besideCarousel p (stopAutoPlay p)"
  "besideCarousel p (pauseAndResume p)"
  "besideCarousel p (updScenery g p)"
  "besideCarousel p (scrollToTop p)"
  "besideCarousel p (finishLoading p)"
  "besideCarousel p (removeRipple k p)"
  by (rule besideCarousel_same;
      simp add: console_log_def console_error_def clearTimer_def setTimeout_def
        startAutoPlay_def stopAutoPlay_def pauseAndResume_def setInterval_def updScenery_def
        scrollToTop_def finishLoading_def removeRipple_def Let_def split: option.splits)+

lemma beside_closure:
  "besideCarousel p (p\<lparr>innerWidth := w\<rparr>)"
  "besideCarousel p (p\<lparr>timeouts := ts\<rparr>)"
  "besideCarousel p (p\<lparr>isDragging := b\<rparr>)"
  "besideCarousel p (p\<lparr>startX := x, isDragging := b\<rparr>)"
  "besideCarousel p (p\<lparr>resizeTimeout := t\<rparr>)"
  by (simp_all add: besideCarousel_def)

lemma beside_then:
  "besideCarousel p q \<Longrightarrow> besideCarousel p (console_log m q)"
  "besideCarousel p q \<Longrightarrow> besideCarousel p (console_error m e q)"
  "besideCarousel p q \<Longrightarrow> besideCarousel p (clearTimer h q)"
  "besideCarousel p q \<Longrightarrow> besideCarousel p (snd (setTimeout f delay q))"
  "besideCarousel p q \<Longrightarrow> besideCarousel p (startAutoPlay q)"
  "besideCarousel p q \<Longrightarrow> besideCarousel p (stopAutoPlay q)"
  "besideCarousel p q \<Longrightarrow> besideCarousel p (pauseAndResume q)"
  "besideCarousel p q \<Longrightarrow> besideCarousel p (updScenery g q)"
  "besideCarousel p q \<Longrightarrow> besideCarousel p (scrollToTop q)"
  "besideCarousel p q \<Longrightarrow> besideCarousel p (q\<lparr>resizeTimeout := t\<rparr>)"
  by (erule besideCarousel_trans, simp add: beside_window beside_closure)+

lemma beside_listeners:
  "besideCarousel p (addEventListener HamburgerT ''click'' HamburgerClick p)"
  "besideCarousel p (addEventListener WindowT ''load'' Load p)"
  "besideCarousel p (addEventListener WindowT ''beforeunload'' BeforeUnload p)"
  by (simp_all add: besideCarousel_def addEventListener_def)

lemma beside_bodies:
  "besideCarousel p (final (ripple_click this e p))"
  "besideCarousel p (final (smoothScroll_click targetId p))"
  "besideCarousel p (final (window_beforeunload p))"
  "besideCarousel p (final (window_load p))"
  "besideCarousel p (final (hamburger_click p))"
  "besideCarousel p (final (slider_mouseenter p))"
  "besideCarousel p (final (slider_mouseleave p))"
  "besideCarousel p (final (slider_touchstart x p))"
  "besideCarousel p (final (slider_touchmove p))"
  "besideCarousel p (final (observerCallback entries p))"
  "besideCarousel p (final (document_visibilitychange hidden p))"
  by (simp_all add: ripple_click_def smoothScroll_click_def window_beforeunload_def
      window_load_def hamburger_click_def slider_mouseenter_def slider_mouseleave_def
      slider_touchstart_def slider_touchmove_def observerCallback_def
      document_visibilitychange_def Let_def beside_window beside_then beside_closure
      besideCarousel_refl split: selection.splits option.splits)

lemma beside_slider_resize: "besideCarousel p (final (slider_resize p))"
proof -
  obtain h q where hq: "setTimeout DebouncedUpdateSlider 250 (clearTimer (resizeTimeout p) p) = (h, q)"
    by (cases "setTimeout DebouncedUpdateSlider 250 (clearTimer (resizeTimeout p) p)")
  then have "q = snd (setTimeout DebouncedUpdateSlider 250 (clearTimer (resizeTimeout p) p))"
    by simp
  then have "besideCarousel p q"
    by (simp add: beside_then beside_window)
  then have "besideCarousel p (q\<lparr>resizeTimeout := Some h\<rparr>)"
    by (rule beside_then)
  with hq show ?thesis
    by (simp add: slider_resize_def Let_def)
qed

text \<open>What a step beside the carousel keeps.\<close>

lemma beside_invariant:
  assumes "carouselInvariant p" and "besideCarousel p q"
  shows "carouselInvariant q"
proof -
  from assms(2) obtain extra where extra: "listeners q = listeners p @ extra"
    "set extra \<subseteq> {(HamburgerT, ''click'', HamburgerClick), (WindowT, ''load'', Load),
                   (WindowT, ''beforeunload'', BeforeUnload)}"
    unfolding besideCarousel_def by blast
  have "index < length (dots q)" if "l \<in> set (listeners q)" "snd (snd l) = DotClick index"
    for l index
  proof -
    from that(1) extra(1) consider "l \<in> set (listeners p)" | "l \<in> set extra" by auto
    then show ?thesis
    proof cases
      case 1
      with assms that(2) show ?thesis
        by (auto simp add: carouselInvariant_def besideCarousel_def)
    next
      case 2
      with extra(2) that(2) show ?thesis by auto
    qed
  qed
  with assms show ?thesis
    by (simp add: carouselInvariant_def indexInRange_def besideCarousel_def)
qed

lemma beside_buttons:
  assumes "buttonsInStep p" and "besideCarousel p q"
  shows "buttonsInStep q"
  using assms by (simp add: buttonsInStep_def besideCarousel_def)

lemma beside_nextBtn_listeners:
  assumes "besideCarousel p q"
  shows "listenersFor NextBtnT ''click'' q = listenersFor NextBtnT ''click'' p"
proof -
  from assms obtain extra where extra: "listeners q = listeners p @ extra"
    "set extra \<subseteq> {(HamburgerT, ''click'', HamburgerClick), (WindowT, ''load'', Load),
                   (WindowT, ''beforeunload'', BeforeUnload)}"
    unfolding besideCarousel_def by blast
  from extra(2) have "filter (\<lambda>l. fst l = NextBtnT \<and> fst (snd l) = ''click'') extra = []"
    by (auto simp add: filter_empty_conv)
  with extra(1) show ?thesis by (simp add: listenersFor_def)
qed

lemma beside_ready:
  assumes "carouselReady p" and "besideCarousel p q"
  shows "carouselReady q"
  using assms beside_invariant [of p q] beside_buttons [of p q]
    beside_nextBtn_listeners [of p q]
  by (simp add: carouselReady_def)

subsection \<open>The listeners stay as registered\<close>

lemma listeners_timers:
  "listeners (clearTimer h p) = listeners p"
  "listeners (snd (setTimeout f delay p)) = listeners p"
  "listeners (startAutoPlay p) = listeners p"
  "listeners (stopAutoPlay p) = listeners p"
  "listeners (pauseAndResume p) = listeners p"
  by (simp_all add: clearTimer_def setTimeout_def startAutoPlay_def stopAutoPlay_def
      pauseAndResume_def setInterval_def Let_def split: option.splits)

lemma listeners_slides:
  "listeners (final (nextSlide rv p)) = listeners p"
  "listeners (final (prevSlide rv p)) = listeners p"
  "listeners (final (goToSlide rv i p)) = listeners p"
  by (simp_all add: nextSlide_def prevSlide_def goToSlide_def updateSlider_keeps)

lemma listeners_others:
  "listeners (updScenery g p) = listeners p"
  "listeners (scrollToTop p) = listeners p"
  "listeners (finishLoading p) = listeners p"
  "listeners (removeRipple k p) = listeners p"
  "listeners (final (ripple_click this e p)) = listeners p"
  "listeners (final (smoothScroll_click targetId p)) = listeners p"
  "listeners (final (window_beforeunload p)) = listeners p"
  "listeners (final (window_load p)) = listeners p"
  "listeners (final (hamburger_click p)) = listeners p"
  by (simp_all add: updScenery_def scrollToTop_def finishLoading_def removeRipple_def
      ripple_click_def smoothScroll_click_def window_beforeunload_def window_load_def
      hamburger_click_def Let_def setTimeout_def split: selection.splits option.splits)

lemma listeners_listenerBody:
  "listeners (final (listenerBody rv this d h p)) = listeners p"
  by (cases h)
     (simp_all add: listenerBody_def listeners_others prevBtn_click_def nextBtn_click_def
        dot_click_def slider_mouseenter_def slider_mouseleave_def slider_touchstart_def
        slider_touchmove_def slider_touchend_def slider_resize_def Let_def final_andThen
        listeners_timers listeners_slides setTimeout_def clearTimer_def
        split: option.splits detail.splits target.splits)

lemma listeners_invoke: "listeners (invoke rv this d p h) = listeners p"
  by (simp add: invoke_def listeners_listenerBody)

lemma listeners_foldl_invoke: "listeners (foldl (invoke rv this d) p hs) = listeners p"
  by (induction hs arbitrary: p) (simp_all add: listeners_invoke)

lemma listeners_fire: "listeners (fire rv e p) = listeners p"
proof (cases e)
  case (TimeoutFires h)
  show ?thesis
  proof (cases "map_of (timeouts p) h")
    case None
    with TimeoutFires show ?thesis by simp
  next
    case (Some job)
    obtain f delay where "job = (f, delay)" by (cases job)
    with Some TimeoutFires show ?thesis
      by (cases f)
         (simp_all add: listeners_timers listeners_others later_def updateSlider_keeps
            clearTimer_def split: option.splits)
  qed
qed (simp_all add: dispatch_def listeners_foldl_invoke autoPlayTick_def listeners_slides)

lemma listeners_run: "listeners (run rv es p) = listeners p"
  by (induction es arbitrary: p) (simp_all add: listeners_fire)

subsection \<open>The invariant\<close>

lemma beside_listenerBody:
  assumes "h \<noteq> PrevClick" and "h \<noteq> NextClick" and "h \<noteq> SliderTouchEnd"
    and "\<forall>index. h \<noteq> DotClick index"
  shows "besideCarousel p (final (listenerBody rv this d h p))"
  using assms
  by (cases h)
     (simp_all add: listenerBody_def beside_bodies beside_slider_resize besideCarousel_refl
        split: detail.splits target.splits)

lemma invariant_invoke:
  assumes "carouselInvariant p" and "h \<in> snd ` snd ` set (listeners p)"
  shows "carouselInvariant (invoke rv this d p h)"
proof -
  from assms(1) have inv: "indexInRange p" and len: "length (dots p) = length (testimonialItems p)"
    by (simp_all add: carouselInvariant_def)
  have shape: "length (dots (invoke rv this d p h)) = length (dots p)"
    "length (testimonialItems (invoke rv this d p h)) = length (testimonialItems p)"
    using shape_of_readOnly [OF readOnly_invoke [of rv this d p h]] by simp_all
  consider "h = PrevClick" | "h = NextClick" | "h = SliderTouchEnd"
    | index where "h = DotClick index"
    | "h \<noteq> PrevClick" "h \<noteq> NextClick" "h \<noteq> SliderTouchEnd" "\<forall>index. h \<noteq> DotClick index"
    by blast
  then have "indexInRange (invoke rv this d p h)"
  proof cases
    case 1
    with inv show ?thesis
      by (simp add: invoke_def listenerBody_def prevBtn_click_def final_andThen
          indexInRange_pauseAndResume indexInRange_prevSlide)
  next
    case 2
    with inv show ?thesis
      by (simp add: invoke_def listenerBody_def nextBtn_click_def final_andThen
          indexInRange_pauseAndResume indexInRange_nextSlide)
  next
    case 3
    with inv show ?thesis
      by (simp add: invoke_def listenerBody_def indexInRange_touchend)
  next
    case 4
    with assms have "index < length (testimonialItems p)"
      by (force simp add: carouselInvariant_def)
    with 4 show ?thesis
      by (simp add: invoke_def listenerBody_def dot_click_def final_andThen
          indexInRange_pauseAndResume indexInRange_goToSlide)
  next
    case 5
    then have "besideCarousel p (invoke rv this d p h)"
      by (simp add: invoke_def beside_listenerBody)
    with assms(1) show ?thesis
      using beside_invariant carouselInvariant_def by blast
  qed
  with shape len assms(1) show ?thesis
    by (simp add: carouselInvariant_def listeners_invoke)
qed

lemma invariant_foldl_invoke:
  "carouselInvariant p \<Longrightarrow> set hs \<subseteq> snd ` snd ` set (listeners p) \<Longrightarrow>
   carouselInvariant (foldl (invoke rv this d) p hs)"
proof (induction hs arbitrary: p)
  case Nil
  then show ?case by simp
next
  case (Cons h hs)
  then show ?case by (simp add: invariant_invoke listeners_invoke)
qed

lemma invariant_dispatch:
  "carouselInvariant p \<Longrightarrow> carouselInvariant (dispatch rv t ty d p)"
  unfolding dispatch_def
  by (rule invariant_foldl_invoke) (auto simp add: listenersFor_def)

lemma invariant_updateSlider:
  "carouselInvariant (final (updateSlider rv p)) = carouselInvariant p"
  by (simp add: carouselInvariant_def indexInRange_def updateSlider_keeps)

lemma invariant_later:
  assumes "carouselInvariant p"
  shows "carouselInvariant (final (later rv p))"
  using beside_invariant [OF assms beside_window(3)]
  by (simp add: later_def invariant_updateSlider)

lemma invariant_tick:
  assumes "carouselInvariant p"
  shows "carouselInvariant (final (autoPlayTick rv p))"
proof -
  from assms have "indexInRange (final (nextSlide rv p))"
    by (simp add: carouselInvariant_def indexInRange_nextSlide)
  with assms show ?thesis
    by (auto simp add: autoPlayTick_def carouselInvariant_def nextSlide_keeps listeners_slides)
qed

lemma invariant_runTask:
  assumes "carouselInvariant p"
  shows "carouselInvariant (runTask rv f p)"
  using assms
  by (cases f) (simp_all add: invariant_later beside_invariant [OF _ beside_window(5)]
      beside_invariant [OF _ beside_window(10)] beside_invariant [OF _ beside_window(11)])

lemma invariant_fire: "carouselInvariant p \<Longrightarrow> carouselInvariant (fire rv e p)"
proof (cases e)
  case (TimeoutFires h)
  assume inv: "carouselInvariant p"
  then have "carouselInvariant (p\<lparr>timeouts := ts\<rparr>)" for ts
    by (rule beside_invariant) (rule beside_closure)
  with TimeoutFires inv show ?thesis
    by (simp add: invariant_runTask split: option.splits)
next
  case (Resize w)
  assume "carouselInvariant p"
  then have "carouselInvariant (p\<lparr>innerWidth := w\<rparr>)"
    by (rule beside_invariant) (rule beside_closure)
  with Resize show ?thesis by (simp add: invariant_dispatch)
qed (simp_all add: invariant_dispatch invariant_tick)

lemma invariant_run: "carouselInvariant p \<Longrightarrow> carouselInvariant (run rv es p)"
  by (induction es arbitrary: p) (simp_all add: invariant_fire)

subsection \<open>The buttons stay in step\<close>

lemma buttonsInStep_slides:
  assumes "buttonsInStep p"
  shows "buttonsInStep (final (nextSlide rv p))"
    and "buttonsInStep (final (prevSlide rv p))"
    and "buttonsInStep (final (goToSlide rv j p))"
    and "buttonsInStep (final (later rv p))"
    and "buttonsInStep (final (autoPlayTick rv p))"
proof -
  from assms have present: "slider p \<noteq> None" "prevBtn p \<noteq> None" "nextBtn p \<noteq> None"
    by (auto simp add: buttonsInStep_def)
  then show "buttonsInStep (final (nextSlide rv p))"
    and "buttonsInStep (final (prevSlide rv p))"
    and "buttonsInStep (final (goToSlide rv j p))"
    and "buttonsInStep (final (later rv p))"
    by (simp_all add: nextSlide_def prevSlide_def goToSlide_def later_def
        buttonsInStep_updateSlider clearTimer_nodes)
  then show "buttonsInStep (final (autoPlayTick rv p))"
    using assms by (simp add: autoPlayTick_def)
qed

lemma buttonsInStep_touchend:
  assumes "buttonsInStep p"
  shows "buttonsInStep (final (slider_touchend rv x p))"
proof (cases "isDragging p")
  case False
  with assms show ?thesis by (simp add: slider_touchend_def)
next
  case True
  define r where "r = (if \<bar>valueOf (dsub (startX p) x)\<bar> > 50
       then (if valueOf (dsub (startX p) x) > 0 then nextSlide rv p else prevSlide rv p)
       else Returned p)"
  have moved: "buttonsInStep (final r)"
    using assms by (simp add: r_def buttonsInStep_slides)
  have "besideCarousel (final r) (final (slider_touchend rv x p))"
    using True
    by (simp add: slider_touchend_def Let_def final_andThen r_def [symmetric]
        besideCarousel_refl beside_then beside_closure)
  with moved show ?thesis by (rule beside_buttons)
qed

lemma buttonsInStep_listenerBody:
  assumes "buttonsInStep p"
  shows "buttonsInStep (final (listenerBody rv this d h p))"
proof -
  consider "h = PrevClick" | "h = NextClick" | "h = SliderTouchEnd"
    | index where "h = DotClick index"
    | "h \<noteq> PrevClick" "h \<noteq> NextClick" "h \<noteq> SliderTouchEnd" "\<forall>index. h \<noteq> DotClick index"
    by blast
  then show ?thesis
  proof cases
    case 1
    then show ?thesis
      using beside_buttons [OF buttonsInStep_slides(2) [OF assms] beside_window(7), of rv] assms
      by (simp add: listenerBody_def prevBtn_click_def final_andThen buttonsInStep_slides)
  next
    case 2
    then show ?thesis
      using beside_buttons [OF buttonsInStep_slides(1) [OF assms] beside_window(7), of rv] assms
      by (simp add: listenerBody_def nextBtn_click_def final_andThen buttonsInStep_slides)
  next
    case 3
    with assms show ?thesis
      by (simp add: listenerBody_def buttonsInStep_touchend)
  next
    case 4
    then show ?thesis
      using beside_buttons [OF buttonsInStep_slides(3) [OF assms] beside_window(7),
          of rv "int index"] assms
      by (simp add: listenerBody_def dot_click_def final_andThen buttonsInStep_slides)
  next
    case 5
    then have "besideCarousel p (final (listenerBody rv this d h p))"
      by (simp add: beside_listenerBody)
    with assms show ?thesis by (rule beside_buttons)
  qed
qed

lemma buttonsInStep_foldl_invoke:
  "buttonsInStep p \<Longrightarrow> buttonsInStep (foldl (invoke rv this d) p hs)"
  by (induction hs arbitrary: p) (simp_all add: invoke_def buttonsInStep_listenerBody)

lemma buttonsInStep_runTask:
  assumes "buttonsInStep p"
  shows "buttonsInStep (runTask rv f p)"
  using assms
  by (cases f) (simp_all add: buttonsInStep_slides beside_buttons [OF _ beside_window(5)]
      beside_buttons [OF _ beside_window(10)] beside_buttons [OF _ beside_window(11)])

lemma buttonsInStep_fire: "buttonsInStep p \<Longrightarrow> buttonsInStep (fire rv e p)"
proof (cases e)
  case (TimeoutFires h)
  assume inv: "buttonsInStep p"
  then have "buttonsInStep (p\<lparr>timeouts := ts\<rparr>)" for ts
    by (rule beside_buttons) (rule beside_closure)
  with TimeoutFires inv show ?thesis
    by (simp add: buttonsInStep_runTask split: option.splits)
next
  case (Resize w)
  assume "buttonsInStep p"
  then have "buttonsInStep (p\<lparr>innerWidth := w\<rparr>)"
    by (rule beside_buttons) (rule beside_closure)
  with Resize show ?thesis by (simp add: dispatch_def buttonsInStep_foldl_invoke)
qed (simp_all add: dispatch_def buttonsInStep_foldl_invoke buttonsInStep_slides)

lemma ready_fire:
  assumes "carouselReady p"
  shows "carouselReady (fire rv e p)"
  using assms
  by (simp add: carouselReady_def invariant_fire buttonsInStep_fire listenersFor_def
      listeners_fire)

subsection \<open>What the initialization sets up\<close>

lemma listeners_window:
  "listeners (console_log m p) = listeners p"
  "listeners (addEventListener t ty h p) = listeners p @ [(t, ty, h)]"
  by (simp_all add: console_log_def addEventListener_def)

lemma listeners_registerSliderListeners:
  "listeners (registerSliderListeners q) =
     listeners q @ map (\<lambda>index. (DotT index, ''click'', DotClick index)) [0..<length (dots q)] @
     [(SliderT, ''mouseenter'', SliderMouseEnter), (SliderT, ''mouseleave'', SliderMouseLeave),
      (SliderT, ''touchstart'', SliderTouchStart), (SliderT, ''touchmove'', SliderTouchMove),
      (SliderT, ''touchend'', SliderTouchEnd), (WindowT, ''resize'', SliderResize)]"
  by (simp add: registerSliderListeners_def Let_def foldl_addEventListener)
     (simp add: addEventListener_def)

lemma listeners_initTestimonialSlider:
  assumes "slider p \<noteq> None" and "dots p \<noteq> []"
  shows "\<exists>before after.
           listeners (final (initTestimonialSlider rv p)) =
             listeners p @ before @ after \<and>
           set before \<subseteq> {(PrevBtnT, ''click'', PrevClick), (NextBtnT, ''click'', NextClick)} \<and>
           (after = [] \<or>
            after = map (\<lambda>index. (DotT index, ''click'', DotClick index)) [0..<length (dots p)] @
              [(SliderT, ''mouseenter'', SliderMouseEnter),
               (SliderT, ''mouseleave'', SliderMouseLeave),
               (SliderT, ''touchstart'', SliderTouchStart),
               (SliderT, ''touchmove'', SliderTouchMove),
               (SliderT, ''touchend'', SliderTouchEnd), (WindowT, ''resize'', SliderResize)])"
proof -
  from assms(1) obtain s where s: "slider p = Some s" by auto
  show ?thesis
  proof (cases "prevBtn p")
    case None
    with s assms(2) have "listeners (final (initTestimonialSlider rv p)) = listeners p @ [] @ []"
      by (cases rv) (simp_all add: initTestimonialSlider_def Let_def console_log_def)
    then show ?thesis by (intro exI conjI) (assumption, simp_all)
  next
    case prev: (Some b)
    show ?thesis
    proof (cases "nextBtn p")
      case None
      with s assms(2) prev
      have "listeners (final (initTestimonialSlider rv p)) =
          listeners p @ [(PrevBtnT, ''click'', PrevClick)] @ []"
        by (cases rv)
           (simp_all add: initTestimonialSlider_def Let_def console_log_def
              addEventListener_def)
      then show ?thesis by (intro exI conjI) (assumption, simp_all)
    next
      case (Some n)
      with s assms(2) prev
      have "listeners (final (initTestimonialSlider rv p)) =
          listeners p @ [(PrevBtnT, ''click'', PrevClick), (NextBtnT, ''click'', NextClick)] @
          (map (\<lambda>index. (DotT index, ''click'', DotClick index)) [0..<length (dots p)] @
            [(SliderT, ''mouseenter'', SliderMouseEnter),
             (SliderT, ''mouseleave'', SliderMouseLeave),
             (SliderT, ''touchstart'', SliderTouchStart),
             (SliderT, ''touchmove'', SliderTouchMove),
             (SliderT, ''touchend'', SliderTouchEnd), (WindowT, ''resize'', SliderResize)])"
        by (cases rv)
           (simp_all add: initTestimonialSlider_def Let_def console_log_keeps
              addEventListener_keeps final_andThen updateSlider_keeps listeners_timers
              listeners_window listeners_registerSliderListeners)
      then show ?thesis by (intro exI conjI) (assumption, simp_all)
    qed
  qed
qed

lemma initTestimonialSlider_establishes:
  assumes "slider p \<noteq> None"
    and "length (dots p) = length (testimonialItems p)" and "testimonialItems p \<noteq> []"
    and "\<forall>l \<in> set (listeners p). \<forall>index. snd (snd l) \<noteq> DotClick index"
  shows "carouselInvariant (final (initTestimonialSlider rv p))"
proof -
  from assms have dots: "dots p \<noteq> []" by auto
  note idx = initTestimonialSlider_index [OF assms(1) dots, of rv]
  from listeners_initTestimonialSlider [OF assms(1) dots, of rv]
  obtain before after where split:
    "listeners (final (initTestimonialSlider rv p)) = listeners p @ before @ after"
    "set before \<subseteq> {(PrevBtnT, ''click'', PrevClick), (NextBtnT, ''click'', NextClick)}"
    "after = [] \<or>
     after = map (\<lambda>index. (DotT index, ''click'', DotClick index)) [0..<length (dots p)] @
       [(SliderT, ''mouseenter'', SliderMouseEnter), (SliderT, ''mouseleave'', SliderMouseLeave),
        (SliderT, ''touchstart'', SliderTouchStart), (SliderT, ''touchmove'', SliderTouchMove),
        (SliderT, ''touchend'', SliderTouchEnd), (WindowT, ''resize'', SliderResize)]"
    by blast
  have registered: "index < length (dots p)"
    if "l \<in> set (listeners (final (initTestimonialSlider rv p)))"
      and "snd (snd l) = DotClick index"
    for l index
  proof -
    from that(1) split(1) consider "l \<in> set (listeners p)" | "l \<in> set before"
      | "l \<in> set after"
      by auto
    then show ?thesis
    proof cases
      case 1
      with assms(4) that(2) show ?thesis by blast
    next
      case 2
      with split(2) that(2) show ?thesis by auto
    next
      case 3
      with split(3) that(2) show ?thesis by auto
    qed
  qed
  from idx assms(2,3) have "indexInRange (final (initTestimonialSlider rv p))"
    and "length (dots (final (initTestimonialSlider rv p))) =
         length (testimonialItems (final (initTestimonialSlider rv p)))"
    by (simp_all add: indexInRange_def)
  with registered idx show ?thesis
    unfolding carouselInvariant_def by metis
qed

text \<open>
  From a page whose carousel has as many dots as items, at least one, the index is in range
  after the initialization and after any sequence of events.
\<close>

lemma index_in_range_always:
  assumes "slider p \<noteq> None"
    and "length (dots p) = length (testimonialItems p)" and "testimonialItems p \<noteq> []"
    and "\<forall>l \<in> set (listeners p). \<forall>index. snd (snd l) \<noteq> DotClick index"
  shows "indexInRange (run rv es (final (initTestimonialSlider rv p)))"
  using invariant_run [OF initTestimonialSlider_establishes [OF assms]]
  by (simp add: carouselInvariant_def)


lemma buttonsInStep_window:
  "buttonsInStep (console_log m p) = buttonsInStep p"
  "buttonsInStep (startAutoPlay p) = buttonsInStep p"
  by (simp_all add: buttonsInStep_def console_log_def startAutoPlay_def setInterval_def Let_def)

text \<open>With the slider, both buttons and a dot, \<^verbatim>\<open>initTestimonialSlider\<close> runs to its end.\<close>

lemma initTestimonialSlider_present:
  assumes "slider p \<noteq> None" and "prevBtn p \<noteq> None" and "nextBtn p \<noteq> None"
    and "dots p \<noteq> []"
  shows "returns (initTestimonialSlider rv p)"
    and "buttonsInStep (final (initTestimonialSlider rv p))"
    and "listeners (final (initTestimonialSlider rv p)) =
          listeners p @ [(PrevBtnT, ''click'', PrevClick), (NextBtnT, ''click'', NextClick)] @
          map (\<lambda>index. (DotT index, ''click'', DotClick index)) [0..<length (dots p)] @
          [(SliderT, ''mouseenter'', SliderMouseEnter),
           (SliderT, ''mouseleave'', SliderMouseLeave),
           (SliderT, ''touchstart'', SliderTouchStart),
           (SliderT, ''touchmove'', SliderTouchMove),
           (SliderT, ''touchend'', SliderTouchEnd), (WindowT, ''resize'', SliderResize)]"
proof -
  from assms obtain s b n where el: "slider p = Some s" "prevBtn p = Some b" "nextBtn p = Some n"
    by auto
  from el assms(4) show "returns (initTestimonialSlider rv p)"
    by (cases rv)
       (simp_all add: initTestimonialSlider_def Let_def console_log_keeps
          addEventListener_keeps returns_andThen updateSlider_returns
          registerSliderListeners_keeps)
  from el assms(4) show "buttonsInStep (final (initTestimonialSlider rv p))"
    by (cases rv)
       (simp_all add: initTestimonialSlider_def Let_def console_log_keeps
          addEventListener_keeps final_andThen updateSlider_returns
          registerSliderListeners_keeps buttonsInStep_window buttonsInStep_updateSlider)
  from el assms(4) show "listeners (final (initTestimonialSlider rv p)) =
          listeners p @ [(PrevBtnT, ''click'', PrevClick), (NextBtnT, ''click'', NextClick)] @
          map (\<lambda>index. (DotT index, ''click'', DotClick index)) [0..<length (dots p)] @
          [(SliderT, ''mouseenter'', SliderMouseEnter),
           (SliderT, ''mouseleave'', SliderMouseLeave),
           (SliderT, ''touchstart'', SliderTouchStart),
           (SliderT, ''touchmove'', SliderTouchMove),
           (SliderT, ''touchend'', SliderTouchEnd), (WindowT, ''resize'', SliderResize)]"
    by (cases rv)
       (simp_all add: initTestimonialSlider_def Let_def console_log_keeps
          addEventListener_keeps final_andThen updateSlider_keeps listeners_timers
          listeners_window listeners_registerSliderListeners)
qed

text \<open>The three initializers that run before the carousel's.\<close>

lemma early_initializers:
  assumes "hasIntersectionObserver (scenery p)"
  shows "\<exists>q. inSequence [initSmoothScrolling rv, initScrollAnimations rv,
                         initHoverAnimations rv] p = Returned q \<and>
             slider q = slider p \<and> prevBtn q = prevBtn p \<and> nextBtn q = nextBtn p \<and>
             dots q = dots p \<and> testimonialItems q = testimonialItems p \<and>
             listeners q =
               listeners p @
               map (\<lambda>index. (NavLinkT index, ''click'', SmoothScrollClick))
                 [0..<length (navLinks (scenery p))] @
               map (\<lambda>button. (button, ''click'', RippleClick)) (buttonTargets (scenery p))"
  using assms
  by (cases rv)
     (simp_all add: initSmoothScrolling_def initScrollAnimations_def initHoverAnimations_def
        Let_def foldl_addEventListener console_log_def updScenery_def)

text \<open>The initializers that run after the carousel's are steps beside it.\<close>

lemma beside_showMobileMenu:
  assumes "besideCarousel p q"
  shows "besideCarousel p (final (showMobileMenu q))"
proof -
  have "besideCarousel q (final (showMobileMenu q))"
    by (simp add: showMobileMenu_def Let_def beside_window beside_then besideCarousel_refl
        split: option.splits)
  with assms show ?thesis by (rule besideCarousel_trans)
qed

lemma beside_initMobileMenu: "besideCarousel p (final (initMobileMenu rv p))"
proof (cases rv)
  case First
  then show ?thesis by (simp add: beside_window)
next
  case Second
  have "besideCarousel p (addEventListener HamburgerT ''click'' HamburgerClick
      (updScenery (\<lambda>s. s\<lparr>hamburger := Some newHamburger\<rparr>) p))"
    by (rule besideCarousel_trans [OF beside_window(8) beside_listeners(1)])
  with Second show ?thesis
    by (simp add: beside_showMobileMenu besideCarousel_refl split: option.splits)
qed

lemma beside_handleResponsiveLayout: "besideCarousel p (final (handleResponsiveLayout p))"
proof -
  let ?p1 = "p\<lparr>testimonialItems :=
      map (\<lambda>item. set_style ''flex'' (''0 0 '' @ itemBasis (getDeviceType p))
                    (set_style ''minWidth'' (itemBasis (getDeviceType p)) item))
          (testimonialItems p)\<rparr>"
  have "besideCarousel p ?p1"
    by (simp add: besideCarousel_def)
  then show ?thesis
    by (simp add: handleResponsiveLayout_def Let_def beside_then split: option.splits)
qed

lemma beside_initLoadingAnimation: "besideCarousel p (final (initLoadingAnimation rv p))"
proof -
  have "besideCarousel q (final (initLoadingAnimation Second q))" for q
  proof -
    let ?q1 = "updScenery (\<lambda>s. s\<lparr>body := classList_add ''loading'' (body s)\<rparr>) q"
    let ?q2 = "addEventListener WindowT ''beforeunload'' BeforeUnload ?q1"
    let ?q3 = "addEventListener WindowT ''load'' Load ?q2"
    have "besideCarousel q ?q3"
      by (rule besideCarousel_trans [OF besideCarousel_trans [OF beside_window(8)
              beside_listeners(3)] beside_listeners(2)])
    then show ?thesis
      by (simp add: initLoadingAnimation_def Let_def beside_then split: option.splits)
  qed
  from this [of p] this [of "console_log ''Initializing loading animations...'' p"]
  show ?thesis
    by (cases rv)
       (simp_all add: initLoadingAnimation_def Let_def
          besideCarousel_trans [OF beside_window(1)])
qed

lemma beside_placeholders:
  "besideCarousel p (final (initFormValidation rv p))"
  "besideCarousel p (final (initBackToTop rv p))"
  "besideCarousel p (final (initBusinessHours rv p))"
  "besideCarousel p (final (initNewsletterSignup rv p))"
  by (cases rv; simp add: beside_window)+

lemma beside_inSequence:
  "(\<And>f q. f \<in> set fs \<Longrightarrow> besideCarousel q (final (f q))) \<Longrightarrow>
   besideCarousel p (final (inSequence fs p))"
proof (induction fs arbitrary: p)
  case Nil
  show ?case by (simp add: besideCarousel_refl)
next
  case (Cons f fs)
  have "besideCarousel p (final (f p))" by (simp add: Cons.prems)
  moreover have "besideCarousel (final (f p)) (final (inSequence fs (final (f p))))"
    by (rule Cons.IH) (simp add: Cons.prems)
  ultimately show ?case
    by (auto simp add: final_andThen intro: besideCarousel_trans)
qed

lemma beside_late_initializers:
  "f \<in> set (drop 4 (initializers rv)) \<Longrightarrow> besideCarousel q (final (f q))"
  by (cases rv)
     (auto simp del: initMobileMenu.simps initFormValidation.simps initBackToTop.simps
        initBusinessHours.simps initNewsletterSignup.simps
        simp add: beside_initLoadingAnimation beside_initMobileMenu beside_placeholders
        beside_handleResponsiveLayout)

lemma beside_window_resized: "besideCarousel p (final (window_resized rv p))"
proof (cases rv)
  case First
  then show ?thesis by (simp add: beside_window)
next
  case Second
  have "returns (handleResponsiveLayout p)"
    by (simp add: handleResponsiveLayout_def Let_def)
  moreover have "besideCarousel p (final (initMobileMenu Second (final (handleResponsiveLayout p))))"
    by (rule besideCarousel_trans [OF beside_handleResponsiveLayout beside_initMobileMenu])
  ultimately show ?thesis
    using Second
    by (simp del: initMobileMenu.simps add: final_andThen Let_def beside_handleResponsiveLayout)
qed

text \<open>No listener of the next button among those of the links, the dots and the ripples.\<close>

lemma no_handler_of_ripples:
  "filter (\<lambda>h. h \<noteq> RippleClick)
     (map (\<lambda>l. snd (snd l)) (filter P (map (\<lambda>button. (button, ''click'', RippleClick)) ts))) = []"
  by (induction ts) simp_all

lemma no_nextBtn_among:
  "filter (\<lambda>l. fst l = NextBtnT \<and> fst (snd l) = ''click'')
     (map (\<lambda>index. (NavLinkT index, ''click'', SmoothScrollClick)) xs) = []"
  "filter (\<lambda>l. fst l = NextBtnT \<and> fst (snd l) = ''click'')
     (map (\<lambda>index. (DotT index, ''click'', DotClick index)) xs) = []"
  by (induction xs) simp_all

text \<open>
  A page with the slider, both buttons, as many dots as items, at least one, and
  \<^verbatim>\<open>IntersectionObserver\<close>, on which no listener is registered before the script runs: after
  \<^verbatim>\<open>DOMContentLoaded\<close> the carousel is ready, and so it stays whatever happens next.
\<close>

lemma loaded_ready:
  assumes "slider p \<noteq> None" and "prevBtn p \<noteq> None" and "nextBtn p \<noteq> None"
    and "length (dots p) = length (testimonialItems p)" and "testimonialItems p \<noteq> []"
    and "listeners p = []" and "hasIntersectionObserver (scenery p)"
  shows "carouselReady (perform rv DOMContentLoaded p)"
    and "currentSlide (perform rv DOMContentLoaded p) = 0"
    and "length (testimonialItems (perform rv DOMContentLoaded p)) =
         length (testimonialItems p)"
proof -
  let ?early = "[initSmoothScrolling rv, initScrollAnimations rv, initHoverAnimations rv]"
  define p1 where "p1 = console_log ''Initializing Coffee Website...'' (scrollToTop p)"
  have p1: "slider p1 = slider p" "prevBtn p1 = prevBtn p" "nextBtn p1 = nextBtn p"
    "dots p1 = dots p" "testimonialItems p1 = testimonialItems p" "listeners p1 = []"
    "hasIntersectionObserver (scenery p1)"
    using assms(6,7) by (simp_all add: p1_def console_log_def scrollToTop_def updScenery_def)
  from early_initializers [OF p1(7), of rv] obtain q where
    early: "inSequence ?early p1 = Returned q"
    and q: "slider q = slider p" "prevBtn q = prevBtn p" "nextBtn q = nextBtn p"
      "dots q = dots p" "testimonialItems q = testimonialItems p"
    and lq: "listeners q =
       map (\<lambda>index. (NavLinkT index, ''click'', SmoothScrollClick))
         [0..<length (navLinks (scenery p1))] @
       map (\<lambda>button. (button, ''click'', RippleClick)) (buttonTargets (scenery p1))"
    using p1 by auto
  have present: "slider q \<noteq> None" "prevBtn q \<noteq> None" "nextBtn q \<noteq> None" "dots q \<noteq> []"
    using assms q by auto
  note init = initTestimonialSlider_present [OF present, of rv]
  from init(1) obtain r where r: "initTestimonialSlider rv q = Returned r"
    by (cases "initTestimonialSlider rv q") simp_all
  then have final: "final (initTestimonialSlider rv q) = r" by simp
  have "carouselInvariant r"
    unfolding final [symmetric]
    using assms(4,5) q lq by (intro initTestimonialSlider_establishes present) auto
  moreover have "buttonsInStep r"
    unfolding final [symmetric] by (rule init)
  moreover have "filter (\<lambda>h. h \<noteq> RippleClick) (listenersFor NextBtnT ''click'' r) = [NextClick]"
    using init(3) lq
    by (simp add: final listenersFor_def no_nextBtn_among no_handler_of_ripples)
  ultimately have ready: "carouselReady r"
    by (simp add: carouselReady_def)
  define late where "late = drop 4 (initializers rv)"
  have split: "initializers rv = ?early @ initTestimonialSlider rv # late"
    by (cases rv) (simp_all add: late_def)
  have "inSequence (initializers rv) p1 =
      andThen (inSequence ?early p1) (inSequence (initTestimonialSlider rv # late))"
    unfolding split by (rule inSequence_append)
  also have "\<dots> = inSequence late r"
    unfolding early by (simp add: r)
  finally have whole: "perform rv DOMContentLoaded p =
      (case inSequence late r of
         Returned q \<Rightarrow> console_log ''Coffee Website initialized successfully!'' q
       | Threw e q \<Rightarrow> console_error ''Error initializing Coffee Website:'' e q)"
    by (simp add: document_DOMContentLoaded_def initCoffeeWebsite_def p1_def
        split: outcome.splits)
  have "besideCarousel r (final (inSequence late r))"
    unfolding late_def by (rule beside_inSequence) (rule beside_late_initializers)
  then have beside: "besideCarousel r (perform rv DOMContentLoaded p)"
    unfolding whole by (cases "inSequence late r") (simp_all add: beside_then)
  with ready show "carouselReady (perform rv DOMContentLoaded p)"
    by (rule beside_ready)
  from initTestimonialSlider_index [OF present(1,4), of rv] q(5) beside
  show "currentSlide (perform rv DOMContentLoaded p) = 0"
    and "length (testimonialItems (perform rv DOMContentLoaded p)) =
         length (testimonialItems p)"
    by (simp_all add: besideCarousel_def final)
qed

lemma ready_perform:
  assumes "carouselReady p" and "operation \<noteq> DOMContentLoaded"
  shows "carouselReady (perform rv operation p)"
  using assms
  by (cases operation)
     (simp_all add: ready_fire beside_ready [OF _ beside_bodies(10)]
        beside_ready [OF _ beside_bodies(11)] beside_ready [OF _ beside_window_resized])

lemma ready_performAll:
  "carouselReady p \<Longrightarrow> DOMContentLoaded \<notin> set operations \<Longrightarrow>
   carouselReady (performAll rv operations p)"
  by (induction operations arbitrary: p) (auto simp add: ready_perform)

text \<open>
  No event removes the slider or a button: elements that exist when the carousel starts exist
  along every run, where every operation of the carousel then returns.
\<close>

lemma fire_keeps_elements:
  "(slider (fire rv e p) = None) = (slider p = None) \<and>
   (prevBtn (fire rv e p) = None) = (prevBtn p = None) \<and>
   (nextBtn (fire rv e p) = None) = (nextBtn p = None)"
  using shape_of_readOnly [OF readOnly_fire [of rv e p]] by simp

lemma run_keeps_elements:
  "(slider (run rv es p) = None) = (slider p = None) \<and>
   (prevBtn (run rv es p) = None) = (prevBtn p = None) \<and>
   (nextBtn (run rv es p) = None) = (nextBtn p = None)"
  by (induction es arbitrary: p) (simp_all add: fire_keeps_elements)


section \<open>Clicks on the next button\<close>

text \<open>The ripple listeners of a button leave the index and the items alone.\<close>

lemma ripple_keeps:
  "currentSlide (invoke rv this d p RippleClick) = currentSlide p"
  "testimonialItems (invoke rv this d p RippleClick) = testimonialItems p"
  by (simp_all add: invoke_def listenerBody_def ripple_click_def Let_def setTimeout_def
      updScenery_def split: detail.splits)

lemma foldl_ripples:
  assumes "filter (\<lambda>h. h \<noteq> RippleClick) hs = []"
  shows "currentSlide (foldl (invoke rv this d) p hs) = currentSlide p"
  using assms
proof (induction hs arbitrary: p)
  case Nil
  show ?case by simp
next
  case (Cons h hs)
  then have "h = RippleClick" and "filter (\<lambda>h. h \<noteq> RippleClick) hs = []"
    by (simp_all split: if_splits)
  with Cons.IH show ?case by (simp add: ripple_keeps)
qed

lemma foldl_ripples_and_next:
  assumes "filter (\<lambda>h. h \<noteq> RippleClick) hs = [NextClick]"
  shows "currentSlide (foldl (invoke rv this d) p hs) = currentSlide (final (nextSlide rv p))"
  using assms
proof (induction hs arbitrary: p)
  case Nil
  then show ?case by simp
next
  case (Cons h hs)
  show ?case
  proof (cases "h = RippleClick")
    case True
    with Cons.prems have "filter (\<lambda>h. h \<noteq> RippleClick) hs = [NextClick]" by simp
    then have "currentSlide (foldl (invoke rv this d) (invoke rv this d p h) hs) =
        currentSlide (final (nextSlide rv (invoke rv this d p h)))"
      by (rule Cons.IH)
    with True show ?thesis
      by (simp add: nextSlide_index ripple_keeps)
  next
    case False
    with Cons.prems have h: "h = NextClick" and "filter (\<lambda>h. h \<noteq> RippleClick) hs = []"
      by simp_all
    then have "currentSlide (foldl (invoke rv this d) (invoke rv this d p h) hs) =
        currentSlide (invoke rv this d p h)"
      by (simp add: foldl_ripples)
    moreover have "currentSlide (invoke rv this d p NextClick) =
        currentSlide (final (nextSlide rv p))"
      by (simp add: invoke_def listenerBody_def nextBtn_click_listener_index)
    ultimately show ?thesis
      using h by simp
  qed
qed

text \<open>
  On a ready carousel the next button is enabled exactly below the last slide; a click there
  moves to the next slide, and a click on the last slide reaches no listener.
\<close>

lemma click_next_ready:
  assumes "carouselReady p"
  shows "receivesClick NextBtnT p \<longleftrightarrow>
           currentSlide p < int (length (testimonialItems p)) - 1"
    and "currentSlide (fire rv (Click NextBtnT e) p) =
           (if currentSlide p < int (length (testimonialItems p)) - 1
            then currentSlide p + 1 else currentSlide p)"
proof -
  from assms obtain b where b: "nextBtn p = Some b"
    "disabled b \<longleftrightarrow> currentSlide p = int (length (testimonialItems p)) - 1"
    by (auto simp add: carouselReady_def buttonsInStep_def)
  from assms have "currentSlide p < int (length (testimonialItems p))"
    by (simp add: carouselReady_def carouselInvariant_def indexInRange_def)
  with b show enabled: "receivesClick NextBtnT p \<longleftrightarrow>
      currentSlide p < int (length (testimonialItems p)) - 1"
    by auto
  from assms have "filter (\<lambda>h. h \<noteq> RippleClick) (listenersFor NextBtnT ''click'' p) = [NextClick]"
    by (simp add: carouselReady_def)
  then have "currentSlide (dispatch rv NextBtnT ''click'' (Pointer e) p) =
      currentSlide (final (nextSlide rv p))"
    unfolding dispatch_def by (rule foldl_ripples_and_next)
  with enabled show "currentSlide (fire rv (Click NextBtnT e) p) =
      (if currentSlide p < int (length (testimonialItems p)) - 1
       then currentSlide p + 1 else currentSlide p)"
    by (simp add: nextSlide_index)
qed

lemma items_fire:
  "length (testimonialItems (fire rv e p)) = length (testimonialItems p)"
  using shape_of_readOnly [OF readOnly_fire [of rv e p]] by simp

text \<open>The loaded page of the examples, and the clicks that lead to its last slide.\<close>

lemma threeSlides_loads:
  "carouselReady (loaded rv)"
  "currentSlide (loaded rv) = 0"
  "length (testimonialItems (loaded rv)) = 3"
proof -
  have present: "slider (threeSlides rv) \<noteq> None" "prevBtn (threeSlides rv) \<noteq> None"
    "nextBtn (threeSlides rv) \<noteq> None"
    and shape: "length (dots (threeSlides rv)) = length (testimonialItems (threeSlides rv))"
    "testimonialItems (threeSlides rv) \<noteq> []" "listeners (threeSlides rv) = []"
    "hasIntersectionObserver (scenery (threeSlides rv))"
    by (simp_all add: threeSlides_def plainScenery_def)
  note loaded_ready [OF present shape, of rv]
  then show "carouselReady (loaded rv)" "currentSlide (loaded rv) = 0"
    "length (testimonialItems (loaded rv)) = 3"
    by (simp_all add: loaded_def) (simp add: threeSlides_def)
qed

lemma clickedOnce_state:
  "carouselReady (clickedOnce rv)"
  "currentSlide (clickedOnce rv) = 1"
  "length (testimonialItems (clickedOnce rv)) = 3"
  unfolding clickedOnce_def
  using threeSlides_loads [of rv]
  by (simp_all add: ready_fire click_next_ready items_fire del: fire.simps)

lemma clickedToLast_state:
  "carouselReady (clickedToLast rv)"
  "currentSlide (clickedToLast rv) = 2"
  "length (testimonialItems (clickedToLast rv)) = 3"
  unfolding clickedToLast_def
  using clickedOnce_state [of rv]
  by (simp_all add: ready_fire click_next_ready items_fire del: fire.simps)

text \<open>
  Claim C1 says that a click on the next button sets the index to \<open>(i + 1) mod n\<close> and wraps
  to 0 on the last slide. On the loaded page with three slides, two clicks on the next button
  lead to the last slide, where \<^verbatim>\<open>updateSlider\<close> has disabled the button: a third click
  reaches no listener, and the index stays 2 where the claim says 0.
\<close>

theorem click_on_last_slide_stays:
  "currentSlide (clickedToLast First) = 2 \<and>
   length (testimonialItems (clickedToLast First)) = 3 \<and>
   \<not> receivesClick NextBtnT (clickedToLast First) \<and>
   currentSlide (fire First (Click NextBtnT aClick) (clickedToLast First)) = 2 \<and>
   currentSlide (fire First (Click NextBtnT aClick) (clickedToLast First)) \<noteq>
     (currentSlide (clickedToLast First) + 1) mod
       int (length (testimonialItems (clickedToLast First)))"
  using clickedToLast_state [of First]
  by (simp add: click_next_ready del: fire.simps receivesClick.simps)

text \<open>
  Claim C1, amended. Take a page with the slider, both buttons, as many dots as items, at
  least one, and \<^verbatim>\<open>IntersectionObserver\<close>, and any state \<open>p\<close> it reaches after
  \<^verbatim>\<open>DOMContentLoaded\<close>, with \<open>n\<close> items and the index at \<open>i\<close>. Then \<open>n \<ge> 1\<close> and \<open>0 \<le> i < n\<close>;
  \<^verbatim>\<open>nextSlide\<close>, and with it the click listener of the next button, sets the index to
  \<open>(i + 1) mod n\<close>; the button receives clicks exactly when \<open>i < n - 1\<close>; and a click on it sets
  the index to \<open>i + 1\<close> when \<open>i < n - 1\<close> and leaves it at \<open>i\<close> on the last slide. The wrap to 0 is
  that of \<^verbatim>\<open>nextSlide\<close> called by the autoplay and by swipes.
\<close>

theorem click_next_index:
  assumes "slider p0 \<noteq> None" and "prevBtn p0 \<noteq> None" and "nextBtn p0 \<noteq> None"
    and "length (dots p0) = length (testimonialItems p0)" and "testimonialItems p0 \<noteq> []"
    and "listeners p0 = []" and "hasIntersectionObserver (scenery p0)"
    and "DOMContentLoaded \<notin> set operations"
    and "p = performAll rv operations (perform rv DOMContentLoaded p0)"
    and "n = int (length (testimonialItems p))" and "i = currentSlide p"
  shows "1 \<le> n \<and> 0 \<le> i \<and> i < n \<and>
         currentSlide (final (nextSlide rv p)) = (i + 1) mod n \<and>
         currentSlide (final (nextBtn_click rv p)) = (i + 1) mod n \<and>
         (receivesClick NextBtnT p \<longleftrightarrow> i < n - 1) \<and>
         currentSlide (fire rv (Click NextBtnT e) p) = (if i < n - 1 then i + 1 else i)"
proof -
  have ready: "carouselReady p"
    unfolding assms(9)
    by (intro ready_performAll loaded_ready assms(1-8))
  then have range: "0 \<le> i" "i < n"
    by (simp_all add: assms(10,11) carouselReady_def carouselInvariant_def indexInRange_def)
  then have n: "1 \<le> n" by simp
  have step: "currentSlide (final (nextSlide rv p)) = (i + 1) mod n"
    using assms(10,11) n range by (simp add: nextSlide_mod)
  from click_next_ready(1) [OF ready] click_next_ready(2) [OF ready, of rv e] step n range
  show ?thesis
    by (simp add: nextBtn_click_listener_index assms(10,11)
        del: fire.simps receivesClick.simps)
qed

theorem click_next_index_witness:
  "currentSlide (clickedOnce First) = 1 \<and>
   int (length (testimonialItems (clickedOnce First))) = 3 \<and>
   receivesClick NextBtnT (clickedOnce First) \<and>
   currentSlide (final (nextBtn_click First (clickedOnce First))) = 2 \<and>
   currentSlide (fire First (Click NextBtnT aClick) (clickedOnce First)) = 2"
proof -
  have "map_option offsetWidth (slider (threeSlides First)) = Some 350"
    and "map_option offsetWidth (prevBtn (threeSlides First)) = Some 350"
    and "map_option offsetWidth (nextBtn (threeSlides First)) = Some 350"
    by code_simp+
  then have present: "slider (threeSlides First) \<noteq> None" "prevBtn (threeSlides First) \<noteq> None"
    "nextBtn (threeSlides First) \<noteq> None"
    by auto
  have shape: "length (dots (threeSlides First)) = length (testimonialItems (threeSlides First))"
    "testimonialItems (threeSlides First) \<noteq> []" "listeners (threeSlides First) = []"
    "hasIntersectionObserver (scenery (threeSlides First))"
    by (simp_all add: threeSlides_def plainScenery_def)
  have ops: "DOMContentLoaded \<notin> set [Event (Click NextBtnT aClick)]"
    by simp
  have p: "clickedOnce First = performAll First [Event (Click NextBtnT aClick)]
      (perform First DOMContentLoaded (threeSlides First))"
    by (simp add: clickedOnce_def loaded_def del: fire.simps)
  have i: "1 = currentSlide (clickedOnce First)"
    and n: "3 = int (length (testimonialItems (clickedOnce First)))"
    by (simp_all add: clickedOnce_state)
  from click_next_index [OF present shape ops p n i, of aClick] i n
  show ?thesis by (simp del: fire.simps receivesClick.simps)
qed

end
